theory Spec2Isabelle
  imports
    Main
    "HOL-Library.Word"
    "HOL-Library.AList"
    "HOL-Library.Char_ord"
    "HOL-Library.List_Lexorder"
begin

unbundle bit_operations_syntax

section \<open>The configuration store\<close>

text \<open>
  The program (\<^verbatim>\<open>main.go\<close>) keeps a list of named configurations in a JSON file beside
  the executable. A Go \<^verbatim>\<open>string\<close> is a sequence of bytes, which is what
  \<^typ>\<open>string\<close> is here: \<^term>\<open>length\<close> counts bytes and equality compares bytes,
  as \<^verbatim>\<open>len\<close> and \<^verbatim>\<open>==\<close> do in Go.
\<close>

record Configuration =
  Name :: string
  BaseURL :: string
  APIKey :: string
  Active :: bool

text \<open>
  A slice is a list. A nil slice and an empty slice are both \<^term>\<open>[]\<close>: the program
  only takes their length, ranges over them and appends to them.
\<close>

record ConfigFile =
  Configurations :: "Configuration list"

subsection \<open>Lookup and activation in memory\<close>

text \<open>
  \<^verbatim>\<open>findConfiguration\<close> returns a pointer to the first element with the given name, or
  nil. The pointer is the index of that element: callers read and write the element
  through it.
\<close>

fun find_from :: "Configuration list \<Rightarrow> string \<Rightarrow> nat \<Rightarrow> nat option" where
  "find_from [] name i = None"
| "find_from (c # cs) name i = (if Name c = name then Some i else find_from cs name (Suc i))"

definition findConfiguration :: "ConfigFile \<Rightarrow> string \<Rightarrow> nat option" where
  "findConfiguration config name = find_from (Configurations config) name 0"

definition setActiveConfiguration :: "ConfigFile \<Rightarrow> string \<Rightarrow> ConfigFile" where
  "setActiveConfiguration config activeName =
     config\<lparr>Configurations :=
       map (\<lambda>c. c\<lparr>Active := (Name c = activeName)\<rparr>) (Configurations config)\<rparr>"

text \<open>The invariant of the data model: at most one configuration is active.\<close>

definition at_most_one_active :: "Configuration list \<Rightarrow> bool" where
  "at_most_one_active cs \<longleftrightarrow> length (filter Active cs) \<le> 1"

subsection \<open>Masking a key for display\<close>

definition Repeat :: "char \<Rightarrow> nat \<Rightarrow> string" where
  "Repeat c n = replicate n c"

definition maskAPIKey :: "string \<Rightarrow> string" where
  "maskAPIKey apiKey =
     (if length apiKey \<le> 8 then Repeat (CHR ''*'') (length apiKey)
      else take 4 apiKey @ Repeat (CHR ''*'') (length apiKey - 8)
           @ drop (length apiKey - 4) apiKey)"

subsection \<open>A name from a URL\<close>

text \<open>
  \<^verbatim>\<open>strings.TrimPrefix\<close>, and \<^verbatim>\<open>strings.Split\<close> for a separator of one byte: the
  text before the first separator, then the split of the text after it; a string
  without separator is its own single part, also when it is empty.
\<close>

definition TrimPrefix :: "string \<Rightarrow> string \<Rightarrow> string" where
  "TrimPrefix s pre = (if take (length pre) s = pre then drop (length pre) s else s)"

fun Split :: "string \<Rightarrow> char \<Rightarrow> string list" where
  "Split [] sep = [[]]"
| "Split (x # xs) sep =
     (if x = sep then [] # Split xs sep
      else (case Split xs sep of
              [] \<Rightarrow> [[x]]
            | p # ps \<Rightarrow> (x # p) # ps))"

text \<open>
  \<^verbatim>\<open>url.Parse\<close> followed by \<^verbatim>\<open>Hostname()\<close> belongs to Go's library, not to this
  program. It is the parameter \<open>hostname\<close>: \<^term>\<open>None\<close> when \<^verbatim>\<open>url.Parse\<close> returns an
  error, the host without port and brackets otherwise.
\<close>

definition extractDomainFromURL :: "(string \<Rightarrow> string option) \<Rightarrow> string \<Rightarrow> string" where
  "extractDomainFromURL hostname baseURL =
     (if baseURL = [] then ''default''
      else case hostname baseURL of
             None \<Rightarrow> ''default''
           | Some h \<Rightarrow>
               if h = [] then ''default''
               else let parts = Split (TrimPrefix h ''www.'') (CHR ''.'')
                    in if length parts \<ge> 2
                       then (if length parts \<ge> 3 then parts ! 1 else parts ! 0)
                       else parts ! 0)"

text \<open>
  A small stand-in for the library on URLs of the shape
  \<^verbatim>\<open>scheme://host[:port][/path]\<close>, where \<^verbatim>\<open>url.Parse\<close> succeeds and \<^verbatim>\<open>Hostname()\<close> is
  the text between \<^verbatim>\<open>//\<close> and the next \<^verbatim>\<open>:\<close>, \<^verbatim>\<open>/\<close>, \<^verbatim>\<open>?\<close> or \<^verbatim>\<open>#\<close>. It only
  instantiates the parameter in examples.
\<close>

fun after_slashes :: "string \<Rightarrow> string option" where
  "after_slashes (a # b # c # rest) =
     (if a = CHR '':'' \<and> b = CHR ''/'' \<and> c = CHR ''/'' then Some rest
      else after_slashes (b # c # rest))"
| "after_slashes _ = None"

definition plain_hostname :: "string \<Rightarrow> string option" where
  "plain_hostname u =
     (case after_slashes u of
        None \<Rightarrow> None
      | Some rest \<Rightarrow> Some (takeWhile (\<lambda>c. c \<notin> set '':/?#'') rest))"

section \<open>Files\<close>

subsection \<open>JSON documents\<close>

text \<open>
  The two files of the program hold JSON. A file's bytes are modelled by the document
  they parse to, with its strings unescaped; \<open>Malformed\<close> stands for bytes that are
  not JSON.

  A number of a document is the \<^verbatim>\<open>float64\<close> that \<^verbatim>\<open>strconv.ParseFloat\<close> makes of its
  literal, given by its IEEE 754 bits. Two literals with the same \<^verbatim>\<open>float64\<close>
  (\<^verbatim>\<open>1\<close> and \<^verbatim>\<open>1.0\<close>, or \<^verbatim>\<open>9007199254740993\<close> and \<^verbatim>\<open>9007199254740992\<close>) are the
  same number here. For a literal beyond the range of \<^verbatim>\<open>float64\<close>, such as
  \<^verbatim>\<open>1e400\<close>, \<^verbatim>\<open>ParseFloat\<close> returns an infinity and an error: in a document it is an
  infinity, which is not \<open>finite_float64\<close>. \<^verbatim>\<open>encoding/json\<close> writes a \<^verbatim>\<open>float64\<close> as
  the shortest literal that reads back as the same \<^verbatim>\<open>float64\<close>.
\<close>

type_synonym float64 = "64 word"

definition finite_float64 :: "float64 \<Rightarrow> bool" where
  "finite_float64 x \<longleftrightarrow> x AND 0x7FF0000000000000 \<noteq> 0x7FF0000000000000"

text \<open>The number \<open>1\<close>, as the literal \<^verbatim>\<open>1\<close> reads: sign 0, exponent 1023, mantissa 0.\<close>

definition float64_one :: float64 where
  "float64_one = 0x3FF0000000000000"

datatype json =
    JNull
  | JBool bool
  | JNum float64
  | JStr string
  | JArr "json list"
  | JObj "(string \<times> json) list"

datatype data = Malformed | Doc json

subsection \<open>Strings written by \<^verbatim>\<open>encoding/json\<close>\<close>

text \<open>
  \<^verbatim>\<open>json.Marshal\<close> writes a string coerced to valid UTF-8: every byte that does not
  start a well-formed encoding (as \<^verbatim>\<open>utf8.DecodeRuneInString\<close> decides it) is written
  as U+FFFD. The other escapes of the encoder (\<^verbatim>\<open><\<close> and the like) are undone
  by any JSON reader and do not change the string.

  \<open>rune_size s\<close> is the number of bytes of the well-formed encoding \<open>s\<close> starts with,
  and 0 when there is none.
\<close>

definition is_cont :: "char \<Rightarrow> bool" where
  "is_cont c \<longleftrightarrow> (0x80::nat) \<le> of_char c \<and> (of_char c :: nat) \<le> 0xBF"

definition second_ok :: "nat \<Rightarrow> char \<Rightarrow> bool" where
  "second_ok b0 c \<longleftrightarrow>
     (if b0 = 0xE0 then 0xA0 else if b0 = 0xF0 then 0x90 else 0x80) \<le> (of_char c :: nat)
     \<and> (of_char c :: nat) \<le> (if b0 = 0xED then 0x9F else if b0 = 0xF4 then 0x8F else 0xBF)"

fun rune_size :: "string \<Rightarrow> nat" where
  "rune_size [] = 0"
| "rune_size (b # bs) =
     (let n = (of_char b :: nat) in
      if n < 0x80 then 1
      else if 0xC2 \<le> n \<and> n \<le> 0xDF then
        (case bs of c1 # _ \<Rightarrow> if is_cont c1 then 2 else 0 | _ \<Rightarrow> 0)
      else if 0xE0 \<le> n \<and> n \<le> 0xEF then
        (case bs of
           c1 # c2 # _ \<Rightarrow> if second_ok n c1 \<and> is_cont c2 then 3 else 0
         | _ \<Rightarrow> 0)
      else if 0xF0 \<le> n \<and> n \<le> 0xF4 then
        (case bs of
           c1 # c2 # c3 # _ \<Rightarrow>
             if second_ok n c1 \<and> is_cont c2 \<and> is_cont c3 then 4 else 0
         | _ \<Rightarrow> 0)
      else 0)"

definition replacement :: string where
  "replacement = [CHR 0xEF, CHR 0xBF, CHR 0xBD]"

function ToValidUTF8 :: "string \<Rightarrow> string" where
  "ToValidUTF8 [] = []"
| "ToValidUTF8 (b # bs) =
     (if rune_size (b # bs) = 0 then replacement @ ToValidUTF8 bs
      else take (rune_size (b # bs)) (b # bs) @ ToValidUTF8 (drop (rune_size (b # bs)) (b # bs)))"
  by pat_completeness auto
termination
  by (relation "measure length") auto

function ValidString :: "string \<Rightarrow> bool" where
  "ValidString [] = True"
| "ValidString (b # bs) =
     (if rune_size (b # bs) = 0 then False
      else ValidString (drop (rune_size (b # bs)) (b # bs)))"
  by pat_completeness auto
termination
  by (relation "measure length") auto

subsection \<open>Reading a document into a Go value\<close>

text \<open>
  \<^verbatim>\<open>json.Unmarshal\<close> matches an object key with a struct field by its JSON name,
  ignoring the case of ASCII letters. (The two non-ASCII letters that Unicode folds to
  \<open>k\<close> and \<open>s\<close> are not modelled.) Keys are read in the order of the document, so a
  later one overwrites an earlier one (for a repeated array the model takes the later
  array whole). \<^verbatim>\<open>null\<close> leaves a string or bool as it is and
  makes a slice or map nil; a value of the wrong kind is an error (\<^term>\<open>None\<close>), and
  both callers drop what was decoded when there is an error.
\<close>

definition lower :: "char \<Rightarrow> char" where
  "lower c = (if CHR ''A'' \<le> c \<and> c \<le> CHR ''Z'' then char_of (of_char c + (32::nat)) else c)"

definition EqualFold :: "string \<Rightarrow> string \<Rightarrow> bool" where
  "EqualFold s t \<longleftrightarrow> map lower s = map lower t"

fun fold_option :: "('a \<Rightarrow> 'b \<Rightarrow> 'b option) \<Rightarrow> 'a list \<Rightarrow> 'b \<Rightarrow> 'b option" where
  "fold_option f [] s = Some s"
| "fold_option f (x # xs) s = (case f x s of None \<Rightarrow> None | Some s' \<Rightarrow> fold_option f xs s')"

fun unmarshal_string :: "json \<Rightarrow> string \<Rightarrow> string option" where
  "unmarshal_string (JStr s) cur = Some s"
| "unmarshal_string JNull cur = Some cur"
| "unmarshal_string _ cur = None"

fun unmarshal_bool :: "json \<Rightarrow> bool \<Rightarrow> bool option" where
  "unmarshal_bool (JBool b) cur = Some b"
| "unmarshal_bool JNull cur = Some cur"
| "unmarshal_bool _ cur = None"

definition zero_Configuration :: Configuration where
  "zero_Configuration = \<lparr>Name = [], BaseURL = [], APIKey = [], Active = False\<rparr>"

definition set_Configuration_field :: "string \<times> json \<Rightarrow> Configuration \<Rightarrow> Configuration option" where
  "set_Configuration_field kv c =
     (if EqualFold (fst kv) ''name'' then
        map_option (\<lambda>s. c\<lparr>Name := s\<rparr>) (unmarshal_string (snd kv) (Name c))
      else if EqualFold (fst kv) ''base_url'' then
        map_option (\<lambda>s. c\<lparr>BaseURL := s\<rparr>) (unmarshal_string (snd kv) (BaseURL c))
      else if EqualFold (fst kv) ''api_key'' then
        map_option (\<lambda>s. c\<lparr>APIKey := s\<rparr>) (unmarshal_string (snd kv) (APIKey c))
      else if EqualFold (fst kv) ''active'' then
        map_option (\<lambda>b. c\<lparr>Active := b\<rparr>) (unmarshal_bool (snd kv) (Active c))
      else Some c)"

fun unmarshal_Configuration :: "json \<Rightarrow> Configuration option" where
  "unmarshal_Configuration JNull = Some zero_Configuration"
| "unmarshal_Configuration (JObj fs) = fold_option set_Configuration_field fs zero_Configuration"
| "unmarshal_Configuration _ = None"

fun unmarshal_all :: "json list \<Rightarrow> Configuration list option" where
  "unmarshal_all [] = Some []"
| "unmarshal_all (j # js) =
     (case unmarshal_Configuration j of
        None \<Rightarrow> None
      | Some c \<Rightarrow> (case unmarshal_all js of None \<Rightarrow> None | Some cs \<Rightarrow> Some (c # cs)))"

fun unmarshal_slice :: "json \<Rightarrow> Configuration list option" where
  "unmarshal_slice JNull = Some []"
| "unmarshal_slice (JArr js) = unmarshal_all js"
| "unmarshal_slice _ = None"

definition set_ConfigFile_field :: "string \<times> json \<Rightarrow> ConfigFile \<Rightarrow> ConfigFile option" where
  "set_ConfigFile_field kv cf =
     (if EqualFold (fst kv) ''configurations'' then
        map_option (\<lambda>cs. cf\<lparr>Configurations := cs\<rparr>) (unmarshal_slice (snd kv))
      else Some cf)"

fun unmarshal_ConfigFile :: "json \<Rightarrow> ConfigFile option" where
  "unmarshal_ConfigFile JNull = Some \<lparr>Configurations = []\<rparr>"
| "unmarshal_ConfigFile (JObj fs) = fold_option set_ConfigFile_field fs \<lparr>Configurations = []\<rparr>"
| "unmarshal_ConfigFile _ = None"

subsection \<open>Writing a Go value as a document\<close>

text \<open>
  Struct fields are written in the order of their declaration, under the names of their
  tags. An empty list of configurations is written as \<^verbatim>\<open>null\<close>: the only empty slice
  the program ever saves is the nil slice that \<^verbatim>\<open>deleteConfiguration\<close> builds.
\<close>

definition marshal_Configuration :: "Configuration \<Rightarrow> json" where
  "marshal_Configuration c =
     JObj [(''name'', JStr (ToValidUTF8 (Name c))),
           (''base_url'', JStr (ToValidUTF8 (BaseURL c))),
           (''api_key'', JStr (ToValidUTF8 (APIKey c))),
           (''active'', JBool (Active c))]"

definition marshal_ConfigFile :: "ConfigFile \<Rightarrow> json" where
  "marshal_ConfigFile cf =
     JObj [(''configurations'',
            if Configurations cf = [] then JNull
            else JArr (map marshal_Configuration (Configurations cf)))]"

subsection \<open>Dynamic values: \<^verbatim>\<open>interface{}\<close>\<close>

text \<open>
  The values of the settings map have the type \<^verbatim>\<open>interface{}\<close>. A Go map has no
  order and no key twice; it is an association list with distinct keys, which
  \<^const>\<open>AList.update\<close> keeps. Reading an object sets its keys one after the other;
  writing a map sorts its keys (bytewise, as \<^verbatim>\<open>sort.Strings\<close> does).

  A number is read into \<^verbatim>\<open>interface{}\<close> as a \<^verbatim>\<open>float64\<close>; when \<^verbatim>\<open>ParseFloat\<close>
  reports that it is out of range, \<^verbatim>\<open>json.Unmarshal\<close> returns an error, here
  \<^term>\<open>None\<close>, also when the number is deep inside an array or an object.
\<close>

datatype any =
    ANil
  | ABool bool
  | ANum float64
  | AString string
  | ASlice "any list"
  | AMap "(string \<times> any) list"

definition set_members :: "(string \<times> any) list \<Rightarrow> (string \<times> any) list \<Rightarrow> (string \<times> any) list" where
  "set_members ds m = fold (\<lambda>kv m. AList.update (fst kv) (snd kv) m) ds m"

fun decode_any :: "json \<Rightarrow> any option" where
  "decode_any JNull = Some ANil"
| "decode_any (JBool b) = Some (ABool b)"
| "decode_any (JNum x) = (if finite_float64 x then Some (ANum x) else None)"
| "decode_any (JStr s) = Some (AString s)"
| "decode_any (JArr js) = map_option ASlice (those (map decode_any js))"
| "decode_any (JObj kvs) =
     map_option (\<lambda>ds. AMap (set_members ds []))
       (those (map (\<lambda>kv. map_option (Pair (fst kv)) (decode_any (snd kv))) kvs))"

text \<open>The members of an object, each value read into \<^verbatim>\<open>interface{}\<close>.\<close>

definition decode_members :: "(string \<times> json) list \<Rightarrow> (string \<times> any) list option" where
  "decode_members kvs = those (map (\<lambda>kv. map_option (Pair (fst kv)) (decode_any (snd kv))) kvs)"

fun marshal_any :: "any \<Rightarrow> json" where
  "marshal_any ANil = JNull"
| "marshal_any (ABool b) = JBool b"
| "marshal_any (ANum n) = JNum n"
| "marshal_any (AString s) = JStr (ToValidUTF8 s)"
| "marshal_any (ASlice vs) = JArr (map marshal_any vs)"
| "marshal_any (AMap m) = JObj (sort_key fst (map (\<lambda>kv. (fst kv, marshal_any (snd kv))) m))"

record ClaudeSettings =
  Env :: "(string \<times> any) list option"

definition NewClaudeSettings :: ClaudeSettings where
  "NewClaudeSettings =
     \<lparr>Env = Some [(''ANTHROPIC_AUTH_TOKEN'', AString []),
                 (''ANTHROPIC_BASE_URL'', AString []),
                 (''API_TIMEOUT_MS'', AString ''3000000''),
                 (''CLAUDE_CODE_DISABLE_NONESSENTIAL_TRAFFIC'', ANum float64_one)]\<rparr>"

text \<open>
  The default \<^verbatim>\<open>1\<close> is a Go \<^verbatim>\<open>int\<close>. It is written \<^verbatim>\<open>1\<close>, as the \<^verbatim>\<open>float64\<close> one
  is, and that is all the program does with it.
\<close>

text \<open>
  Reading into the field \<^verbatim>\<open>Env\<close>: \<^verbatim>\<open>null\<close> makes the map nil, an object sets its keys
  in the map that is there (a new one when it is nil), anything else is an error, and
  so is an object with a value that cannot be read. No other key of the document has a
  field to go to: its value is skipped, not read.
\<close>

definition set_ClaudeSettings_field :: "string \<times> json \<Rightarrow> ClaudeSettings \<Rightarrow> ClaudeSettings option" where
  "set_ClaudeSettings_field kv s =
     (if EqualFold (fst kv) ''env'' then
        (case snd kv of
           JNull \<Rightarrow> Some (s\<lparr>Env := None\<rparr>)
         | JObj kvs \<Rightarrow>
             (case decode_members kvs of
                None \<Rightarrow> None
              | Some ds \<Rightarrow>
                  Some (s\<lparr>Env := Some (set_members ds
                                        (case Env s of None \<Rightarrow> [] | Some m \<Rightarrow> m))\<rparr>))
         | _ \<Rightarrow> None)
      else Some s)"

fun unmarshal_ClaudeSettings :: "json \<Rightarrow> ClaudeSettings option" where
  "unmarshal_ClaudeSettings JNull = Some \<lparr>Env = None\<rparr>"
| "unmarshal_ClaudeSettings (JObj fs) = fold_option set_ClaudeSettings_field fs \<lparr>Env = None\<rparr>"
| "unmarshal_ClaudeSettings _ = None"

definition marshal_ClaudeSettings :: "ClaudeSettings \<Rightarrow> json" where
  "marshal_ClaudeSettings s =
     JObj [(''env'', case Env s of None \<Rightarrow> JNull | Some m \<Rightarrow> marshal_any (AMap m))]"

section \<open>The world the program runs in\<close>

text \<open>
  What the program reads and writes outside its memory: the platform, the two files
  (the store beside the executable and \<^verbatim>\<open>~/.claude/settings.json\<close>), the environment
  of the process, and the variables that \<^verbatim>\<open>setx\<close> makes permanent. Whether a system
  call fails is decided by the world: \<open>executable_ok\<close> (\<^verbatim>\<open>os.Executable\<close>),
  \<open>home_ok\<close> (\<^verbatim>\<open>os.UserHomeDir\<close>), \<open>mkdir_ok\<close> (\<^verbatim>\<open>os.MkdirAll\<close>), \<open>readable\<close>,
  \<open>writable\<close> and \<open>setx_ok\<close>. A write that fails leaves the file as it was. Text
  printed to the terminal is not modelled.
\<close>

datatype platform = Windows | Linux | Darwin | OtherOS

datatype path = ConfigPath | SettingsPath

record stored_file =
  fdata :: data
  fmode :: "32 word"

record world =
  GOOS :: platform
  executable_ok :: bool
  home_ok :: bool
  mkdir_ok :: bool
  files :: "path \<Rightarrow> stored_file option"
  readable :: "path \<Rightarrow> bool"
  writable :: "path \<Rightarrow> bool"
  umask :: "32 word"
  environ :: "string \<Rightarrow> string option"
  setx_ok :: "string \<Rightarrow> bool"
  permanent :: "string \<Rightarrow> string option"

datatype read_error = NotExist | ReadFailed

definition ReadFile :: "world \<Rightarrow> path \<Rightarrow> read_error + data" where
  "ReadFile w p =
     (case files w p of
        None \<Rightarrow> Inl NotExist
      | Some f \<Rightarrow> if readable w p then Inr (fdata f) else Inl ReadFailed)"

text \<open>
  \<^verbatim>\<open>os.WriteFile(name, data, perm)\<close> creates the file with the permissions \<open>perm\<close>
  less the bits of the umask, or truncates the file that is there and leaves its
  permissions alone.
\<close>

definition WriteFile :: "world \<Rightarrow> path \<Rightarrow> data \<Rightarrow> 32 word \<Rightarrow> world option" where
  "WriteFile w p d perm =
     (if writable w p then
        Some (w\<lparr>files := (files w)
                 (p \<mapsto> (case files w p of
                          None \<Rightarrow> \<lparr>fdata = d, fmode = perm AND NOT (umask w)\<rparr>
                        | Some f \<Rightarrow> f\<lparr>fdata := d\<rparr>))\<rparr>)
      else None)"

definition Getenv :: "world \<Rightarrow> string \<Rightarrow> string" where
  "Getenv w k = (case environ w k of None \<Rightarrow> [] | Some v \<Rightarrow> v)"

text \<open>\<^verbatim>\<open>os.Setenv\<close> refuses a value with a NUL byte (the two names used here are fine).\<close>

definition Setenv :: "world \<Rightarrow> string \<Rightarrow> string \<Rightarrow> world option" where
  "Setenv w k v =
     (if CHR 0x00 \<in> set v then None else Some (w\<lparr>environ := (environ w)(k \<mapsto> v)\<rparr>))"

definition setx :: "world \<Rightarrow> string \<Rightarrow> string \<Rightarrow> world" where
  "setx w k v = (if setx_ok w k then w\<lparr>permanent := (permanent w)(k \<mapsto> v)\<rparr> else w)"

datatype error =
    ExecutablePathError
  | ReadConfigError
  | ParseConfigError
  | WriteConfigError
  | DuplicateName string
  | NotFound string
  | ActiveProfileDeletion string
  | HomeDirError
  | MkdirError
  | ReadSettingsError
  | WriteSettingsError
  | SetenvError string

text \<open>
  The errors \<^verbatim>\<open>fmt.Errorf\<close> builds, named after the failure: \<open>DuplicateName\<close> is
  "configuration with name ... already exists", \<open>NotFound\<close> is "configuration with
  name ... not found", \<open>ActiveProfileDeletion\<close> is "cannot delete active
  configuration ...".
\<close>

subsection \<open>Saving and loading the store\<close>

text \<open>The permissions in the source are the octal literal \<^verbatim>\<open>0644\<close>, which is 420.\<close>

definition saveConfig :: "world \<Rightarrow> ConfigFile \<Rightarrow> (error + unit) \<times> world" where
  "saveConfig w config =
     (if \<not> executable_ok w then (Inl ExecutablePathError, w)
      else case WriteFile w ConfigPath (Doc (marshal_ConfigFile config)) 420 of
             None \<Rightarrow> (Inl WriteConfigError, w)
           | Some w' \<Rightarrow> (Inr (), w'))"

definition importFromWindows :: "(string \<Rightarrow> string option) \<Rightarrow> world \<Rightarrow> Configuration option" where
  "importFromWindows hostname w =
     (let baseURL = Getenv w ''ANTHROPIC_BASE_URL'';
          apiKey = Getenv w ''ANTHROPIC_AUTH_TOKEN''
      in if baseURL = [] \<or> apiKey = [] then None
         else Some \<lparr>Name = extractDomainFromURL hostname baseURL,
                    BaseURL = baseURL, APIKey = apiKey, Active = True\<rparr>)"

text \<open>The type assertion \<^verbatim>\<open>.(string)\<close> on a map entry: the string, if the entry is one.\<close>

definition string_entry :: "(string \<times> any) list \<Rightarrow> string \<Rightarrow> string option" where
  "string_entry m k = (case map_of m k of Some (AString s) \<Rightarrow> Some s | _ \<Rightarrow> None)"

definition importFromUnixSettings :: "(string \<Rightarrow> string option) \<Rightarrow> world \<Rightarrow> Configuration option" where
  "importFromUnixSettings hostname w =
     (if \<not> home_ok w then None
      else case ReadFile w SettingsPath of
             Inl _ \<Rightarrow> None
           | Inr Malformed \<Rightarrow> None
           | Inr (Doc j) \<Rightarrow>
               (case unmarshal_ClaudeSettings j of
                  None \<Rightarrow> None
                | Some settings \<Rightarrow>
                    (case Env settings of
                       None \<Rightarrow> None
                     | Some env \<Rightarrow>
                         (case (string_entry env ''ANTHROPIC_BASE_URL'',
                                string_entry env ''ANTHROPIC_AUTH_TOKEN'') of
                            (Some baseURL, Some apiKey) \<Rightarrow>
                              if baseURL = [] \<or> apiKey = [] then None
                              else Some \<lparr>Name = extractDomainFromURL hostname baseURL,
                                         BaseURL = baseURL, APIKey = apiKey, Active = True\<rparr>
                          | _ \<Rightarrow> None))))"

text \<open>
  \<^verbatim>\<open>loadConfig\<close>: when the store file does not exist, it imports a configuration from
  the settings of the platform (\<open>autoImport\<close> is its switch on \<^verbatim>\<open>runtime.GOOS\<close>)
  and saves it at once (an error of that save is ignored); otherwise it reads and
  decodes the file.
\<close>

definition autoImport :: "(string \<Rightarrow> string option) \<Rightarrow> world \<Rightarrow> Configuration option" where
  "autoImport hostname w =
     (case GOOS w of
        Windows \<Rightarrow> importFromWindows hostname w
      | Linux \<Rightarrow> importFromUnixSettings hostname w
      | Darwin \<Rightarrow> importFromUnixSettings hostname w
      | OtherOS \<Rightarrow> None)"

definition loadConfig :: "(string \<Rightarrow> string option) \<Rightarrow> world \<Rightarrow> (error + ConfigFile) \<times> world" where
  "loadConfig hostname w =
     (if \<not> executable_ok w then (Inl ExecutablePathError, w)
      else case files w ConfigPath of
             None \<Rightarrow>
               (case autoImport hostname w of
                  Some importedConfig \<Rightarrow>
                    (let config = \<lparr>Configurations = [importedConfig]\<rparr>
                     in (Inr config, snd (saveConfig w config)))
                | None \<Rightarrow> (Inr \<lparr>Configurations = []\<rparr>, w))
           | Some f \<Rightarrow>
               (case ReadFile w ConfigPath of
                  Inl _ \<Rightarrow> (Inl ReadConfigError, w)
                | Inr Malformed \<Rightarrow> (Inl ParseConfigError, w)
                | Inr (Doc j) \<Rightarrow>
                    (case unmarshal_ConfigFile j of
                       None \<Rightarrow> (Inl ParseConfigError, w)
                     | Some configFile \<Rightarrow> (Inr configFile, w))))"

subsection \<open>Adding, updating and deleting\<close>

definition addConfiguration ::
  "(string \<Rightarrow> string option) \<Rightarrow> world \<Rightarrow> string \<Rightarrow> string \<Rightarrow> string \<Rightarrow> (error + unit) \<times> world" where
  "addConfiguration hostname w name baseURL apiKey =
     (case loadConfig hostname w of
        (Inl err, w1) \<Rightarrow> (Inl err, w1)
      | (Inr config, w1) \<Rightarrow>
          if findConfiguration config name \<noteq> None then (Inl (DuplicateName name), w1)
          else
            let newConf = \<lparr>Name = name, BaseURL = baseURL, APIKey = apiKey, Active = False\<rparr>;
                newConf = (if length (Configurations config) = 0
                           then newConf\<lparr>Active := True\<rparr> else newConf)
            in saveConfig w1 (config\<lparr>Configurations := Configurations config @ [newConf]\<rparr>))"

text \<open>
  \<^verbatim>\<open>updateConfiguration\<close> writes through the pointer that \<^verbatim>\<open>findConfiguration\<close>
  returned: the element at that index changes, in the slice that is saved.
\<close>

definition updateConfiguration ::
  "(string \<Rightarrow> string option) \<Rightarrow> world \<Rightarrow> string \<Rightarrow> string \<Rightarrow> string \<Rightarrow> (error + unit) \<times> world" where
  "updateConfiguration hostname w name baseURL apiKey =
     (case loadConfig hostname w of
        (Inl err, w1) \<Rightarrow> (Inl err, w1)
      | (Inr config, w1) \<Rightarrow>
          (case findConfiguration config name of
             None \<Rightarrow> (Inl (NotFound name), w1)
           | Some i \<Rightarrow>
               let conf = Configurations config ! i;
                   conf = (if baseURL \<noteq> [] then conf\<lparr>BaseURL := baseURL\<rparr> else conf);
                   conf = (if apiKey \<noteq> [] then conf\<lparr>APIKey := apiKey\<rparr> else conf)
               in saveConfig w1 (config\<lparr>Configurations := (Configurations config)[i := conf]\<rparr>)))"

definition deleteConfiguration ::
  "(string \<Rightarrow> string option) \<Rightarrow> world \<Rightarrow> string \<Rightarrow> (error + unit) \<times> world" where
  "deleteConfiguration hostname w name =
     (case loadConfig hostname w of
        (Inl err, w1) \<Rightarrow> (Inl err, w1)
      | (Inr config, w1) \<Rightarrow>
          (case findConfiguration config name of
             None \<Rightarrow> (Inl (NotFound name), w1)
           | Some i \<Rightarrow>
               if Active (Configurations config ! i) then (Inl (ActiveProfileDeletion name), w1)
               else saveConfig w1
                      (config\<lparr>Configurations :=
                         filter (\<lambda>c. Name c \<noteq> name) (Configurations config)\<rparr>)))"

subsection \<open>Activation\<close>

definition setWindowsEnvironmentVariables :: "world \<Rightarrow> Configuration \<Rightarrow> (error + unit) \<times> world" where
  "setWindowsEnvironmentVariables w activeConfig =
     (case Setenv w ''ANTHROPIC_BASE_URL'' (BaseURL activeConfig) of
        None \<Rightarrow> (Inl (SetenvError ''ANTHROPIC_BASE_URL''), w)
      | Some w1 \<Rightarrow>
          (case Setenv w1 ''ANTHROPIC_AUTH_TOKEN'' (APIKey activeConfig) of
             None \<Rightarrow> (Inl (SetenvError ''ANTHROPIC_AUTH_TOKEN''), w1)
           | Some w2 \<Rightarrow>
               (Inr (), setx (setx w2 ''ANTHROPIC_BASE_URL'' (BaseURL activeConfig))
                             ''ANTHROPIC_AUTH_TOKEN'' (APIKey activeConfig))))"

text \<open>
  The settings the file is rewritten from: those decoded from the file, or the defaults
  of \<^const>\<open>NewClaudeSettings\<close> when the file is missing or does not decode. A file that
  is there and cannot be read is an error.
\<close>

definition read_settings :: "world \<Rightarrow> error + ClaudeSettings" where
  "read_settings w =
     (case ReadFile w SettingsPath of
        Inr (Doc j) \<Rightarrow>
          (case unmarshal_ClaudeSettings j of
             None \<Rightarrow> Inr NewClaudeSettings
           | Some settings \<Rightarrow> Inr settings)
      | Inr Malformed \<Rightarrow> Inr NewClaudeSettings
      | Inl ReadFailed \<Rightarrow> Inl ReadSettingsError
      | Inl NotExist \<Rightarrow> Inr NewClaudeSettings)"

definition update_env :: "Configuration \<Rightarrow> (string \<times> any) list \<Rightarrow> (string \<times> any) list" where
  "update_env activeConfig env =
     (let env = AList.update ''ANTHROPIC_AUTH_TOKEN'' (AString (APIKey activeConfig)) env;
          env = AList.update ''ANTHROPIC_BASE_URL'' (AString (BaseURL activeConfig)) env;
          env = (if map_of env ''API_TIMEOUT_MS'' = None
                 then AList.update ''API_TIMEOUT_MS'' (AString ''3000000'') env else env);
          env = (if map_of env ''CLAUDE_CODE_DISABLE_NONESSENTIAL_TRAFFIC'' = None
                 then AList.update ''CLAUDE_CODE_DISABLE_NONESSENTIAL_TRAFFIC'' (ANum float64_one) env
                 else env)
      in env)"

definition setUnixSettingsFile :: "world \<Rightarrow> Configuration \<Rightarrow> (error + unit) \<times> world" where
  "setUnixSettingsFile w activeConfig =
     (if \<not> home_ok w then (Inl HomeDirError, w)
      else if \<not> mkdir_ok w then (Inl MkdirError, w)
      else case read_settings w of
             Inl err \<Rightarrow> (Inl err, w)
           | Inr settings \<Rightarrow>
               (let env = (case Env settings of None \<Rightarrow> [] | Some m \<Rightarrow> m);
                    settings = settings\<lparr>Env := Some (update_env activeConfig env)\<rparr>
                in case WriteFile w SettingsPath (Doc (marshal_ClaudeSettings settings)) 420 of
                     None \<Rightarrow> (Inl WriteSettingsError, w)
                   | Some w' \<Rightarrow> (Inr (), w')))"

text \<open>
  The switch on \<^verbatim>\<open>runtime.GOOS\<close> at the end of \<^verbatim>\<open>activateConfiguration\<close>: on an
  unsupported platform there is a warning and no error.
\<close>

definition apply_settings :: "world \<Rightarrow> Configuration \<Rightarrow> (error + unit) \<times> world" where
  "apply_settings w conf =
     (case GOOS w of
        Windows \<Rightarrow> setWindowsEnvironmentVariables w conf
      | Linux \<Rightarrow> setUnixSettingsFile w conf
      | Darwin \<Rightarrow> setUnixSettingsFile w conf
      | OtherOS \<Rightarrow> (Inr (), w))"

text \<open>
  \<^verbatim>\<open>activateConfiguration\<close> keeps the pointer to the configuration it found; after
  \<^verbatim>\<open>setActiveConfiguration\<close> has rewritten the flags in place, the pointer shows the
  element with its flag set.
\<close>

definition activateConfiguration ::
  "(string \<Rightarrow> string option) \<Rightarrow> world \<Rightarrow> string \<Rightarrow> (error + unit) \<times> world" where
  "activateConfiguration hostname w name =
     (case loadConfig hostname w of
        (Inl err, w1) \<Rightarrow> (Inl err, w1)
      | (Inr config, w1) \<Rightarrow>
          (case findConfiguration config name of
             None \<Rightarrow> (Inl (NotFound name), w1)
           | Some i \<Rightarrow>
               let config = setActiveConfiguration config name
               in (case saveConfig w1 config of
                     (Inl err, w2) \<Rightarrow> (Inl err, w2)
                   | (Inr ok, w2) \<Rightarrow> apply_settings w2 (Configurations config ! i))))"

section \<open>Notions used in the statements\<close>

text \<open>
  A configuration as the store file holds it after \<^const>\<open>marshal_Configuration\<close>, and the
  configurations whose strings are written unchanged.
\<close>

definition as_written :: "Configuration \<Rightarrow> Configuration" where
  "as_written c = c\<lparr>Name := ToValidUTF8 (Name c), BaseURL := ToValidUTF8 (BaseURL c),
                    APIKey := ToValidUTF8 (APIKey c)\<rparr>"

definition valid_Configuration :: "Configuration \<Rightarrow> bool" where
  "valid_Configuration c \<longleftrightarrow>
     ValidString (Name c) \<and> ValidString (BaseURL c) \<and> ValidString (APIKey c)"

text \<open>The collection that the store file holds, if it holds one.\<close>

definition stored :: "world \<Rightarrow> ConfigFile option" where
  "stored w =
     (case files w ConfigPath of
        None \<Rightarrow> None
      | Some f \<Rightarrow> (case fdata f of Malformed \<Rightarrow> None | Doc j \<Rightarrow> unmarshal_ConfigFile j))"

text \<open>
  The member of a JSON object under a key: the last one, which is what a reader that
  takes the members in order ends with. Other documents have no members.
\<close>

fun member_of :: "json \<Rightarrow> string \<Rightarrow> json option" where
  "member_of (JObj kvs) k = map_of (rev kvs) k"
| "member_of _ k = None"

text \<open>The errors of the operations themselves, as opposed to those of the system.\<close>

fun domain_error :: "error \<Rightarrow> bool" where
  "domain_error (DuplicateName n) = True"
| "domain_error (NotFound n) = True"
| "domain_error (ActiveProfileDeletion n) = True"
| "domain_error _ = False"

section \<open>Example data\<close>

definition work_profile :: Configuration where
  "work_profile = \<lparr>Name = ''work'', BaseURL = ''https://api.anthropic.com'',
                    APIKey = ''sk-work-0001'', Active = False\<rparr>"

definition home_profile :: Configuration where
  "home_profile = \<lparr>Name = ''home'', BaseURL = ''https://example.org'',
                    APIKey = ''sk-home-0002'', Active = True\<rparr>"

definition two_profiles :: ConfigFile where
  "two_profiles = \<lparr>Configurations = [work_profile, home_profile]\<rparr>"

definition same_name_twice :: ConfigFile where
  "same_name_twice =
     \<lparr>Configurations = [work_profile, home_profile, work_profile\<lparr>APIKey := ''sk-work-0006''\<rparr>]\<rparr>"

definition both_active :: ConfigFile where
  "both_active = \<lparr>Configurations = [work_profile\<lparr>Active := True\<rparr>, home_profile]\<rparr>"

definition bad_name_profile :: Configuration where
  "bad_name_profile = \<lparr>Name = [CHR 0xFF], BaseURL = ''https://example.org'',
                        APIKey = ''sk-0003'', Active = True\<rparr>"

text \<open>
  A Linux machine where every system call succeeds, with umask \<^verbatim>\<open>022\<close> (18) and no
  file yet; the same machine with a store of two active configurations; with a store
  of two configurations, one of them active; with a
  settings file as Claude Code leaves it, holding a key beside \<^verbatim>\<open>env\<close>; and on its
  first run, with settings to import and no store.
\<close>

definition fresh_linux :: world where
  "fresh_linux =
     \<lparr>GOOS = Linux, executable_ok = True, home_ok = True, mkdir_ok = True,
      files = (\<lambda>p. None), readable = (\<lambda>p. True), writable = (\<lambda>p. True),
      umask = 18, environ = (\<lambda>k. None), setx_ok = (\<lambda>k. False), permanent = (\<lambda>k. None)\<rparr>"

definition both_active_world :: world where
  "both_active_world =
     fresh_linux\<lparr>files := (files fresh_linux)
       (ConfigPath \<mapsto> \<lparr>fdata = Doc (marshal_ConfigFile both_active), fmode = 420\<rparr>)\<rparr>"

definition two_profiles_world :: world where
  "two_profiles_world =
     fresh_linux\<lparr>files := (files fresh_linux)
       (ConfigPath \<mapsto> \<lparr>fdata = Doc (marshal_ConfigFile two_profiles), fmode = 420\<rparr>)\<rparr>"



text \<open>
  A settings file with a number beyond the range of \<^verbatim>\<open>float64\<close>, the literal
  \<^verbatim>\<open>1e400\<close>, beside a string in \<^verbatim>\<open>env\<close>.
\<close>

definition out_of_range_settings :: json where
  "out_of_range_settings =
     JObj [(''env'', JObj [(''HTTPS_PROXY'', JStr ''http://proxy:3128''),
                           (''MAX_THINKING_TOKENS'', JNum 0x7FF0000000000000)])]"

definition out_of_range_world :: world where
  "out_of_range_world =
     fresh_linux\<lparr>files := (files fresh_linux)
       (SettingsPath \<mapsto> \<lparr>fdata = Doc out_of_range_settings, fmode = 384\<rparr>)\<rparr>"

definition first_run_world :: world where
  "first_run_world =
     fresh_linux\<lparr>files := (files fresh_linux)
       (SettingsPath \<mapsto>
          \<lparr>fdata = Doc (JObj [(''env'',
                     JObj [(''ANTHROPIC_AUTH_TOKEN'', JStr ''sk-ant-0004''),
                           (''ANTHROPIC_BASE_URL'', JStr ''https://api.anthropic.com'')])]),
           fmode = 420\<rparr>)\<rparr>"

section \<open>Properties of the operations in memory\<close>

subsection \<open>Lookup\<close>

lemma find_from_None: "find_from cs n i = None \<longleftrightarrow> n \<notin> Name ` set cs"
  by (induction cs arbitrary: i) auto

lemma find_from_Some:
  "find_from cs n i = Some j \<Longrightarrow>
     i \<le> j \<and> j - i < length cs \<and> Name (cs ! (j - i)) = n \<and> (\<forall>k < j - i. Name (cs ! k) \<noteq> n)"
proof (induction cs arbitrary: i)
  case Nil
  then show ?case by simp
next
  case (Cons c cs)
  show ?case
  proof (cases "Name c = n")
    case True
    with Cons.prems show ?thesis by simp
  next
    case False
    with Cons.prems have rec: "find_from cs n (Suc i) = Some j" by simp
    from Cons.IH [OF rec] have le: "Suc i \<le> j" and len: "j - Suc i < length cs"
      and nm: "Name (cs ! (j - Suc i)) = n" and before: "\<forall>k < j - Suc i. Name (cs ! k) \<noteq> n"
      by simp_all
    from le have eq: "j - i = Suc (j - Suc i)" by simp
    have "\<forall>k < j - i. Name ((c # cs) ! k) \<noteq> n"
    proof (intro allI impI)
      fix k assume "k < j - i"
      then show "Name ((c # cs) ! k) \<noteq> n"
        using False before eq by (cases k) auto
    qed
    with le len nm eq show ?thesis by simp
  qed
qed

lemma findConfiguration_None:
  "findConfiguration c n = None \<longleftrightarrow> (\<forall>p \<in> set (Configurations c). Name p \<noteq> n)"
  by (auto simp: findConfiguration_def find_from_None)

lemma findConfiguration_Some:
  "findConfiguration c n = Some i \<Longrightarrow>
     i < length (Configurations c) \<and> Name (Configurations c ! i) = n
     \<and> (\<forall>k < i. Name (Configurations c ! k) \<noteq> n)"
  using find_from_Some [of "Configurations c" n 0 i] by (simp add: findConfiguration_def)

lemma Configurations_setActive:
  "Configurations (setActiveConfiguration c n) =
     map (\<lambda>p. p\<lparr>Active := (Name p = n)\<rparr>) (Configurations c)"
  by (simp add: setActiveConfiguration_def)

lemma setActive_twice:
  "setActiveConfiguration (setActiveConfiguration c n) n = setActiveConfiguration c n"
  by (simp add: setActiveConfiguration_def o_def)

subsection \<open>Activation\<close>

text \<open>
  Claim C5, amended. For a collection that contains a configuration named \<open>n\<close>,
  \<^const>\<open>setActiveConfiguration\<close> keeps the length and every field but the flag and sets
  the flag of each configuration to whether its name is \<open>n\<close>: the one found is active
  and every configuration with another name is inactive. When no other configuration
  has the name \<open>n\<close>, every other configuration is inactive. Doing it twice is the same
  as doing it once.
\<close>

theorem setActiveConfiguration_sets_flags:
  assumes "findConfiguration c n = Some i"
  shows "length (Configurations (setActiveConfiguration c n)) = length (Configurations c)
     \<and> i < length (Configurations c)
     \<and> Name (Configurations c ! i) = n
     \<and> Active (Configurations (setActiveConfiguration c n) ! i)
     \<and> (\<forall>j < length (Configurations c).
           Configurations (setActiveConfiguration c n) ! j
             = (Configurations c ! j)\<lparr>Active := (Name (Configurations c ! j) = n)\<rparr>)
     \<and> (\<forall>j < length (Configurations c).
           Name (Configurations c ! j) \<noteq> n \<longrightarrow>
             \<not> Active (Configurations (setActiveConfiguration c n) ! j))
     \<and> ((\<forall>j < length (Configurations c). j \<noteq> i \<longrightarrow> Name (Configurations c ! j) \<noteq> n) \<longrightarrow>
          (\<forall>j < length (Configurations c). j \<noteq> i \<longrightarrow>
             \<not> Active (Configurations (setActiveConfiguration c n) ! j)))
     \<and> setActiveConfiguration (setActiveConfiguration c n) n = setActiveConfiguration c n"
  using findConfiguration_Some [OF assms]
  by (simp add: Configurations_setActive setActive_twice)

theorem setActiveConfiguration_sets_flags_witness:
  "findConfiguration two_profiles ''work'' = Some 0
   \<and> Name (Configurations two_profiles ! 1) \<noteq> ''work''
   \<and> Configurations (setActiveConfiguration two_profiles ''work'')
       = [work_profile\<lparr>Active := True\<rparr>, home_profile\<lparr>Active := False\<rparr>]
   \<and> \<not> Active (Configurations (setActiveConfiguration two_profiles ''work'') ! 1)
   \<and> setActiveConfiguration (setActiveConfiguration two_profiles ''work'') ''work''
       = setActiveConfiguration two_profiles ''work''"
proof -
  have found: "findConfiguration two_profiles ''work'' = Some 0"
    by (simp add: findConfiguration_def two_profiles_def work_profile_def)
  have other: "Name (Configurations two_profiles ! 1) \<noteq> ''work''"
    by (simp add: two_profiles_def home_profile_def)
  have len: "length (Configurations two_profiles) = 2"
    by (simp add: two_profiles_def)
  have only: "\<forall>j < length (Configurations two_profiles).
      j \<noteq> 0 \<longrightarrow> Name (Configurations two_profiles ! j) \<noteq> ''work''"
  proof (intro allI impI)
    fix j assume "j < length (Configurations two_profiles)" and "j \<noteq> 0"
    with len have "j = 1" by simp
    with other show "Name (Configurations two_profiles ! j) \<noteq> ''work''" by simp
  qed
  note sets = setActiveConfiguration_sets_flags [OF found]
  from sets only have "\<forall>j < length (Configurations two_profiles). j \<noteq> 0 \<longrightarrow>
      \<not> Active (Configurations (setActiveConfiguration two_profiles ''work'') ! j)"
    by blast
  with len have inactive:
    "\<not> Active (Configurations (setActiveConfiguration two_profiles ''work'') ! 1)"
    by simp
  from sets have twice:
    "setActiveConfiguration (setActiveConfiguration two_profiles ''work'') ''work''
       = setActiveConfiguration two_profiles ''work''"
    by blast
  have flags: "Configurations (setActiveConfiguration two_profiles ''work'')
       = [work_profile\<lparr>Active := True\<rparr>, home_profile\<lparr>Active := False\<rparr>]"
    by (simp add: setActiveConfiguration_def two_profiles_def work_profile_def home_profile_def)
  from found other flags inactive twice show ?thesis by (intro conjI)
qed

text \<open>
  With the name twice in the collection the statement of the claim fails: both
  configurations of that name become active, the one found and another one.
\<close>

theorem setActiveConfiguration_same_name_counterexample:
  "findConfiguration same_name_twice ''work'' = Some 0
   \<and> length (Configurations same_name_twice) = 3
   \<and> Active (Configurations (setActiveConfiguration same_name_twice ''work'') ! 0)
   \<and> Active (Configurations (setActiveConfiguration same_name_twice ''work'') ! 2)"
  by (simp add: findConfiguration_def setActiveConfiguration_def same_name_twice_def
      work_profile_def home_profile_def)

lemma filter_Active_setActive:
  "distinct (map Name cs) \<Longrightarrow> i < length cs \<Longrightarrow> Name (cs ! i) = n \<Longrightarrow>
     filter Active (map (\<lambda>p. p\<lparr>Active := (Name p = n)\<rparr>) cs) = [(cs ! i)\<lparr>Active := True\<rparr>]"
proof (induction cs arbitrary: i)
  case Nil
  then show ?case by simp
next
  case (Cons c cs)
  show ?case
  proof (cases i)
    case 0
    with Cons.prems have "n \<notin> Name ` set cs" by simp
    then have "\<forall>p \<in> set cs. Name p \<noteq> n" by blast
    then have "filter Active (map (\<lambda>p. p\<lparr>Active := (Name p = n)\<rparr>) cs) = []"
      by (simp add: filter_empty_conv)
    with 0 Cons.prems show ?thesis by simp
  next
    case (Suc k)
    with Cons.prems have "Name c \<noteq> n" by auto
    with Suc Cons.prems Cons.IH [of k] show ?thesis by simp
  qed
qed

text \<open>
  Claim C10. For a collection with distinct names that contains a configuration named
  \<open>n\<close>, whatever its flags were before, the active configurations after
  \<^const>\<open>setActiveConfiguration\<close> are exactly one: the configuration named \<open>n\<close>.
\<close>

theorem setActiveConfiguration_repairs:
  assumes "distinct (map Name (Configurations c))"
      and "findConfiguration c n = Some i"
  shows "filter Active (Configurations (setActiveConfiguration c n))
           = [(Configurations c ! i)\<lparr>Active := True\<rparr>]
     \<and> Name (Configurations c ! i) = n
     \<and> (\<forall>j < length (Configurations c).
           Active (Configurations (setActiveConfiguration c n) ! j) \<longleftrightarrow> j = i)"
proof -
  from findConfiguration_Some [OF assms(2)]
  have i: "i < length (Configurations c)" and n: "Name (Configurations c ! i) = n" by simp_all
  have one: "filter Active (Configurations (setActiveConfiguration c n))
           = [(Configurations c ! i)\<lparr>Active := True\<rparr>]"
    using filter_Active_setActive [OF assms(1) i n] by (simp add: Configurations_setActive)
  have "\<forall>j < length (Configurations c).
           Active (Configurations (setActiveConfiguration c n) ! j) \<longleftrightarrow> j = i"
  proof (intro allI impI)
    fix j assume j: "j < length (Configurations c)"
    have "Name (Configurations c ! j) = n \<longleftrightarrow> j = i"
      using assms(1) i j n by (metis distinct_conv_nth length_map nth_map)
    with j show "Active (Configurations (setActiveConfiguration c n) ! j) \<longleftrightarrow> j = i"
      by (simp add: Configurations_setActive)
  qed
  with one n show ?thesis by simp
qed

theorem setActiveConfiguration_repairs_witness:
  "distinct (map Name [work_profile\<lparr>Active := True\<rparr>, home_profile])
   \<and> length (filter Active [work_profile\<lparr>Active := True\<rparr>, home_profile]) = 2
   \<and> findConfiguration \<lparr>Configurations = [work_profile\<lparr>Active := True\<rparr>, home_profile]\<rparr> ''home''
       = Some 1
   \<and> filter Active (Configurations (setActiveConfiguration
         \<lparr>Configurations = [work_profile\<lparr>Active := True\<rparr>, home_profile]\<rparr> ''home''))
       = [home_profile]"
proof -
  have d: "distinct (map Name (Configurations
             \<lparr>Configurations = [work_profile\<lparr>Active := True\<rparr>, home_profile]\<rparr>))"
    by (simp add: work_profile_def home_profile_def)
  have f: "findConfiguration \<lparr>Configurations = [work_profile\<lparr>Active := True\<rparr>, home_profile]\<rparr>
             ''home'' = Some 1"
    by (simp add: findConfiguration_def work_profile_def home_profile_def)
  have two: "length (filter Active [work_profile\<lparr>Active := True\<rparr>, home_profile]) = 2"
    by (simp add: work_profile_def home_profile_def)
  have h: "home_profile\<lparr>Active := True\<rparr> = home_profile"
    by (simp add: home_profile_def)
  from setActiveConfiguration_repairs [OF d f] d f two h show ?thesis by simp
qed

subsection \<open>Masking\<close>

text \<open>
  Claim C6. A key of at most 8 bytes is shown as that many mask characters, and nothing
  of the key is in the result: any other key of the same length is shown the same. A
  longer key is shown as its first 4 bytes, \<open>length s - 8\<close> mask characters and its
  last 4 bytes.
\<close>

theorem maskAPIKey_masks:
  "(length s \<le> 8 \<longrightarrow>
      maskAPIKey s = replicate (length s) (CHR ''*'')
      \<and> (length t = length s \<longrightarrow> maskAPIKey t = maskAPIKey s))
   \<and> (8 < length s \<longrightarrow>
        maskAPIKey s = take 4 s @ replicate (length s - 8) (CHR ''*'') @ drop (length s - 4) s
        \<and> length (take 4 s) = 4 \<and> length (drop (length s - 4) s) = 4
        \<and> length (maskAPIKey s) = length s)"
proof (intro conjI impI)
  assume "length s \<le> 8"
  then show "maskAPIKey s = replicate (length s) (CHR ''*'')"
    by (simp add: maskAPIKey_def Repeat_def)
next
  assume "length s \<le> 8" "length t = length s"
  then show "maskAPIKey t = maskAPIKey s"
    by (simp add: maskAPIKey_def Repeat_def)
next
  assume "8 < length s"
  then show "maskAPIKey s = take 4 s @ replicate (length s - 8) (CHR ''*'') @ drop (length s - 4) s"
    by (simp add: maskAPIKey_def Repeat_def)
next
  assume "8 < length s"
  then show "length (take 4 s) = 4" by simp
next
  assume "8 < length s"
  then show "length (drop (length s - 4) s) = 4" by simp
next
  assume "8 < length s"
  then show "length (maskAPIKey s) = length s"
    by (simp add: maskAPIKey_def Repeat_def)
qed

theorem maskAPIKey_masks_witness:
  "length ''12345678'' \<le> 8 \<and> maskAPIKey ''12345678'' = ''********''
   \<and> length ''abcdefgh'' = length ''12345678'' \<and> maskAPIKey ''abcdefgh'' = maskAPIKey ''12345678''
   \<and> 8 < length ''123456789abc'' \<and> maskAPIKey ''123456789abc'' = ''1234****9abc''"
proof -
  have short: "length ''12345678'' \<le> 8" and same: "length ''abcdefgh'' = length ''12345678''"
    and long: "8 < length ''123456789abc''"
    by simp_all
  from maskAPIKey_masks [of "''12345678''" "''abcdefgh''"] short same
  have a: "maskAPIKey ''12345678'' = replicate (length ''12345678'') (CHR ''*'')"
    and b: "maskAPIKey ''abcdefgh'' = maskAPIKey ''12345678''"
    by blast+
  from maskAPIKey_masks [of "''123456789abc''" "[]"] long
  have c: "maskAPIKey ''123456789abc''
      = take 4 ''123456789abc'' @ replicate (length ''123456789abc'' - 8) (CHR ''*'')
        @ drop (length ''123456789abc'' - 4) ''123456789abc''"
    by blast
  have a': "maskAPIKey ''12345678'' = ''********''"
    unfolding a by code_simp
  have c': "maskAPIKey ''123456789abc'' = ''1234****9abc''"
    unfolding c by code_simp
  from short same long a' b c' show ?thesis by blast
qed

subsection \<open>Names from URLs\<close>

lemma Split_not_Nil: "Split s sep \<noteq> []"
  by (induction s) (auto split: list.splits)

lemma Split_join: "concat (map ((#) sep) (Split s sep)) = sep # s"
  by (induction s) (auto split: list.splits simp: Split_not_Nil)

lemma Split_no_sep: "p \<in> set (Split s sep) \<Longrightarrow> sep \<notin> set p"
  by (induction s arbitrary: p) (auto split: list.splits if_splits)

lemma length_Split: "length (Split s sep) = Suc (count_list s sep)"
  by (induction s) (auto split: list.splits simp: Split_not_Nil)

text \<open>
  Claim C7. \<^const>\<open>extractDomainFromURL\<close> is a function of the URL (and of what the
  library makes of it): an empty URL, one the library does not parse, and one with an
  empty host give \<open>default\<close>; otherwise the host without a leading \<open>www.\<close> is split at
  the dots, and the result is the label at index 1 when there are three or more, and
  the label at index 0 when there are two or one. So the URLs
  \<^verbatim>\<open>https://api.anthropic.com\<close> and \<^verbatim>\<open>https://anthropic.com\<close>, whose hosts are
  \<^verbatim>\<open>api.anthropic.com\<close> and \<^verbatim>\<open>anthropic.com\<close>, both give \<open>anthropic\<close>.
\<close>

theorem extractDomainFromURL_labels:
  "(u = [] \<or> hn u = None \<or> hn u = Some [] \<longrightarrow> extractDomainFromURL hn u = ''default'')
   \<and> (u \<noteq> [] \<and> hn u = Some h \<and> h \<noteq> [] \<longrightarrow>
        (let labels = Split (TrimPrefix h ''www.'') (CHR ''.'') in
           1 \<le> length labels
           \<and> (3 \<le> length labels \<longrightarrow> extractDomainFromURL hn u = labels ! 1)
           \<and> (length labels = 2 \<longrightarrow> extractDomainFromURL hn u = labels ! 0)
           \<and> (length labels = 1 \<longrightarrow> extractDomainFromURL hn u = labels ! 0)))
   \<and> (hn ''https://api.anthropic.com'' = Some ''api.anthropic.com'' \<longrightarrow>
        extractDomainFromURL hn ''https://api.anthropic.com'' = ''anthropic'')
   \<and> (hn ''https://anthropic.com'' = Some ''anthropic.com'' \<longrightarrow>
        extractDomainFromURL hn ''https://anthropic.com'' = ''anthropic'')
   \<and> extractDomainFromURL hn [] = ''default''"
proof -
  have a: "u = [] \<or> hn u = None \<or> hn u = Some [] \<longrightarrow> extractDomainFromURL hn u = ''default''"
    by (auto simp: extractDomainFromURL_def)
  have b: "u \<noteq> [] \<and> hn u = Some h \<and> h \<noteq> [] \<longrightarrow>
        (let labels = Split (TrimPrefix h ''www.'') (CHR ''.'') in
           1 \<le> length labels
           \<and> (3 \<le> length labels \<longrightarrow> extractDomainFromURL hn u = labels ! 1)
           \<and> (length labels = 2 \<longrightarrow> extractDomainFromURL hn u = labels ! 0)
           \<and> (length labels = 1 \<longrightarrow> extractDomainFromURL hn u = labels ! 0))"
    using Split_not_Nil [of "TrimPrefix h ''www.''" "CHR ''.''"]
    by (auto simp: extractDomainFromURL_def Let_def Suc_le_eq)
  have c: "hn ''https://api.anthropic.com'' = Some ''api.anthropic.com'' \<longrightarrow>
        extractDomainFromURL hn ''https://api.anthropic.com'' = ''anthropic''"
    by (simp add: extractDomainFromURL_def TrimPrefix_def)
  have d: "hn ''https://anthropic.com'' = Some ''anthropic.com'' \<longrightarrow>
        extractDomainFromURL hn ''https://anthropic.com'' = ''anthropic''"
    by (simp add: extractDomainFromURL_def TrimPrefix_def)
  have e: "extractDomainFromURL hn [] = ''default''"
    by (simp add: extractDomainFromURL_def)
  from a b c d e show ?thesis by blast
qed


theorem extractDomainFromURL_labels_witness:
  "plain_hostname ''https://api.anthropic.com'' = Some ''api.anthropic.com''
   \<and> Split (TrimPrefix ''api.anthropic.com'' ''www.'') (CHR ''.'') = [''api'', ''anthropic'', ''com'']
   \<and> extractDomainFromURL plain_hostname ''https://api.anthropic.com'' = ''anthropic''
   \<and> plain_hostname ''https://anthropic.com'' = Some ''anthropic.com''
   \<and> extractDomainFromURL plain_hostname ''https://anthropic.com'' = ''anthropic''
   \<and> plain_hostname ''https://www.localhost'' = Some ''www.localhost''
   \<and> extractDomainFromURL plain_hostname ''https://www.localhost'' = ''localhost''
   \<and> plain_hostname ''no scheme'' = None
   \<and> extractDomainFromURL plain_hostname ''no scheme'' = ''default''"
proof -
  have h3: "plain_hostname ''https://api.anthropic.com'' = Some ''api.anthropic.com''"
    and h2: "plain_hostname ''https://anthropic.com'' = Some ''anthropic.com''"
    and h1: "plain_hostname ''https://www.localhost'' = Some ''www.localhost''"
    and h0: "plain_hostname ''no scheme'' = None"
    by (simp_all add: plain_hostname_def)
  have s3: "Split (TrimPrefix ''api.anthropic.com'' ''www.'') (CHR ''.'') = [''api'', ''anthropic'', ''com'']"
    and s1: "Split (TrimPrefix ''www.localhost'' ''www.'') (CHR ''.'') = [''localhost'']"
    by (simp_all add: TrimPrefix_def)
  from extractDomainFromURL_labels [of "''https://api.anthropic.com''" plain_hostname] h3
  have r3: "extractDomainFromURL plain_hostname ''https://api.anthropic.com'' = ''anthropic''"
    by blast
  from extractDomainFromURL_labels [of "''https://anthropic.com''" plain_hostname] h2
  have r2: "extractDomainFromURL plain_hostname ''https://anthropic.com'' = ''anthropic''"
    by blast
  from extractDomainFromURL_labels
         [of "''https://www.localhost''" plain_hostname "''www.localhost''"] h1 s1
  have r1: "extractDomainFromURL plain_hostname ''https://www.localhost'' = ''localhost''"
    by (simp add: Let_def)
  from extractDomainFromURL_labels [of "''no scheme''" plain_hostname] h0
  have r0: "extractDomainFromURL plain_hostname ''no scheme'' = ''default''"
    by blast
  from h3 s3 r3 h2 r2 h1 r1 h0 r0 show ?thesis by blast
qed

section \<open>Properties of the store\<close>

subsection \<open>What is written and what is read back\<close>

lemma ToValidUTF8_valid: "ValidString s \<Longrightarrow> ToValidUTF8 s = s"
proof (induction s rule: ValidString.induct)
  case 1
  then show ?case by simp
next
  case (2 b bs)
  from "2.prems" have k: "rune_size (b # bs) \<noteq> 0"
    by (simp split: if_splits)
  with "2.prems" have "ValidString (drop (rune_size (b # bs)) (b # bs))"
    by (simp split: if_splits)
  with "2.IH" k have "ToValidUTF8 (drop (rune_size (b # bs)) (b # bs)) = drop (rune_size (b # bs)) (b # bs)"
    by simp
  with k show ?case
    by (simp del: rune_size.simps)
qed

lemma as_written_valid: "valid_Configuration c \<Longrightarrow> as_written c = c"
  by (simp add: valid_Configuration_def as_written_def ToValidUTF8_valid)

lemma unmarshal_marshal_Configuration:
  "unmarshal_Configuration (marshal_Configuration c) = Some (as_written c)"
  by (simp add: marshal_Configuration_def set_Configuration_field_def EqualFold_def lower_def
      zero_Configuration_def as_written_def)

lemma unmarshal_all_marshal:
  "unmarshal_all (map marshal_Configuration cs) = Some (map as_written cs)"
  by (induction cs) (simp_all add: unmarshal_marshal_Configuration)

lemma unmarshal_marshal_ConfigFile:
  "unmarshal_ConfigFile (marshal_ConfigFile cf)
     = Some \<lparr>Configurations = map as_written (Configurations cf)\<rparr>"
  by (simp add: marshal_ConfigFile_def set_ConfigFile_field_def EqualFold_def lower_def
      unmarshal_all_marshal)

lemma saveConfig_Inr:
  "saveConfig w c = (Inr (), w') \<longleftrightarrow>
     executable_ok w \<and> writable w ConfigPath
     \<and> w' = w\<lparr>files := (files w)
              (ConfigPath \<mapsto> (case files w ConfigPath of
                   None \<Rightarrow> \<lparr>fdata = Doc (marshal_ConfigFile c), fmode = 420 AND NOT (umask w)\<rparr>
                 | Some f \<Rightarrow> f\<lparr>fdata := Doc (marshal_ConfigFile c)\<rparr>))\<rparr>"
  by (auto simp: saveConfig_def WriteFile_def)

lemma saveConfig_Inl:
  "saveConfig w c = (Inl e, w') \<Longrightarrow>
     w' = w \<and> (e = ExecutablePathError \<or> e = WriteConfigError)"
  by (auto simp: saveConfig_def WriteFile_def split: if_splits)

lemma stored_after_save:
  "saveConfig w c = (Inr (), w') \<Longrightarrow>
     stored w' = Some \<lparr>Configurations = map as_written (Configurations c)\<rparr>"
  by (auto simp: saveConfig_Inr stored_def unmarshal_marshal_ConfigFile split: option.splits)

lemma loadConfig_existing:
  "files w ConfigPath \<noteq> None \<Longrightarrow> snd (loadConfig hn w) = w"
  by (auto simp: loadConfig_def split: option.splits sum.splits data.splits)

lemma loadConfig_nothing_to_import:
  "autoImport hn w = None \<Longrightarrow> snd (loadConfig hn w) = w"
  by (auto simp: loadConfig_def split: option.splits sum.splits data.splits)

lemma loadConfig_frame:
  "loadConfig hn w = (r, w1) \<Longrightarrow>
     executable_ok w1 = executable_ok w \<and> writable w1 = writable w \<and> readable w1 = readable w
     \<and> GOOS w1 = GOOS w \<and> home_ok w1 = home_ok w \<and> mkdir_ok w1 = mkdir_ok w
     \<and> umask w1 = umask w \<and> files w1 SettingsPath = files w SettingsPath"
  by (auto simp: loadConfig_def saveConfig_def WriteFile_def Let_def
      split: option.splits sum.splits data.splits if_splits)

lemma loadConfig_Inr_ok:
  "loadConfig hn w = (Inr c, w1) \<Longrightarrow> executable_ok w"
  by (auto simp: loadConfig_def split: if_splits)

lemma loadConfig_after_save:
  assumes "saveConfig w c = (Inr (), w')" and "readable w' ConfigPath"
  shows "loadConfig hn w' = (Inr \<lparr>Configurations = map as_written (Configurations c)\<rparr>, w')"
  using assms
  by (auto simp: saveConfig_Inr loadConfig_def ReadFile_def unmarshal_marshal_ConfigFile
      split: option.splits)

subsection \<open>The operations, once the store is loaded\<close>

lemma ConfigFile_update: "c\<lparr>Configurations := xs\<rparr> = \<lparr>Configurations = xs\<rparr>"
  by (cases c) simp

lemma addConfiguration_loaded:
  assumes "loadConfig hn w = (Inr c, w1)"
  shows "addConfiguration hn w n u k =
     (if \<exists>p \<in> set (Configurations c). Name p = n then (Inl (DuplicateName n), w1)
      else saveConfig w1
             \<lparr>Configurations = Configurations c
                @ [\<lparr>Name = n, BaseURL = u, APIKey = k, Active = (Configurations c = [])\<rparr>]\<rparr>)"
proof (cases "findConfiguration c n")
  case None
  then have "\<not> (\<exists>p \<in> set (Configurations c). Name p = n)"
    by (simp add: findConfiguration_None)
  with None assms show ?thesis
    by (simp add: addConfiguration_def Let_def ConfigFile_update)
next
  case (Some i)
  with findConfiguration_Some [OF Some] have "\<exists>p \<in> set (Configurations c). Name p = n"
    by (metis nth_mem)
  with Some assms show ?thesis
    by (simp add: addConfiguration_def)
qed

lemma updateConfiguration_loaded:
  assumes "loadConfig hn w = (Inr c, w1)"
  shows "updateConfiguration hn w n u k =
     (case findConfiguration c n of
        None \<Rightarrow> (Inl (NotFound n), w1)
      | Some i \<Rightarrow>
          saveConfig w1
            \<lparr>Configurations = (Configurations c)
               [i := (Configurations c ! i)
                 \<lparr>BaseURL := (if u \<noteq> [] then u else BaseURL (Configurations c ! i)),
                  APIKey := (if k \<noteq> [] then k else APIKey (Configurations c ! i))\<rparr>]\<rparr>)"
  using assms
  by (simp add: updateConfiguration_def Let_def ConfigFile_update split: option.splits)

lemma deleteConfiguration_loaded:
  assumes "loadConfig hn w = (Inr c, w1)"
  shows "deleteConfiguration hn w n =
     (case findConfiguration c n of
        None \<Rightarrow> (Inl (NotFound n), w1)
      | Some i \<Rightarrow>
          if Active (Configurations c ! i) then (Inl (ActiveProfileDeletion n), w1)
          else saveConfig w1 \<lparr>Configurations = filter (\<lambda>p. Name p \<noteq> n) (Configurations c)\<rparr>)"
  using assms
  by (simp add: deleteConfiguration_def ConfigFile_update split: option.splits)

lemma saveConfig_frame:
  "saveConfig w c = (r, w') \<Longrightarrow>
     GOOS w' = GOOS w \<and> home_ok w' = home_ok w \<and> mkdir_ok w' = mkdir_ok w
     \<and> files w' SettingsPath = files w SettingsPath"
  by (auto simp: saveConfig_def WriteFile_def split: if_splits)

lemma setUnixSettingsFile_store:
  "files (snd (setUnixSettingsFile w conf)) ConfigPath = files w ConfigPath"
  by (auto simp: setUnixSettingsFile_def WriteFile_def Let_def split: sum.splits option.splits)

lemma setWindowsEnvironmentVariables_store:
  "files (snd (setWindowsEnvironmentVariables w conf)) = files w"
  by (auto simp: setWindowsEnvironmentVariables_def Setenv_def setx_def split: option.splits)

lemma setUnixSettingsFile_not_domain:
  "fst (setUnixSettingsFile w conf) = Inl e \<Longrightarrow> \<not> domain_error e"
  by (auto simp: setUnixSettingsFile_def WriteFile_def Let_def read_settings_def ReadFile_def
      split: sum.splits option.splits if_splits data.splits read_error.splits)

lemma setWindowsEnvironmentVariables_not_domain:
  "fst (setWindowsEnvironmentVariables w conf) = Inl e \<Longrightarrow> \<not> domain_error e"
  by (auto simp: setWindowsEnvironmentVariables_def split: option.splits)

lemma activateConfiguration_loaded:
  assumes "loadConfig hn w = (Inr c, w1)"
  shows "activateConfiguration hn w n =
     (case findConfiguration c n of
        None \<Rightarrow> (Inl (NotFound n), w1)
      | Some i \<Rightarrow>
          (case saveConfig w1 (setActiveConfiguration c n) of
             (Inl e, w2) \<Rightarrow> (Inl e, w2)
           | (Inr ok, w2) \<Rightarrow>
               apply_settings w2 (Configurations (setActiveConfiguration c n) ! i)))"
  using assms
  by (simp add: activateConfiguration_def Let_def split: option.splits)

lemma apply_settings_store:
  "files (snd (apply_settings w conf)) ConfigPath = files w ConfigPath"
  by (simp add: apply_settings_def setUnixSettingsFile_store setWindowsEnvironmentVariables_store
      split: platform.splits)

lemma apply_settings_not_domain:
  "fst (apply_settings w conf) = Inl e \<Longrightarrow> \<not> domain_error e"
  by (auto simp: apply_settings_def split: platform.splits
      dest: setUnixSettingsFile_not_domain setWindowsEnvironmentVariables_not_domain)

lemma saveConfig_succeeds:
  "executable_ok w \<Longrightarrow> writable w ConfigPath \<Longrightarrow> fst (saveConfig w c) = Inr ()"
  by (simp add: saveConfig_def WriteFile_def)

lemma saveConfig_not_domain: "fst (saveConfig w c) = Inl e \<Longrightarrow> \<not> domain_error e"
  by (auto simp: saveConfig_def WriteFile_def split: if_splits)

lemma saveConfig_written:
  "saveConfig w c = (Inr (), w') \<Longrightarrow>
     \<exists>f. files w' ConfigPath = Some f \<and> fdata f = Doc (marshal_ConfigFile c)"
  by (auto simp: saveConfig_Inr split: option.splits)


lemma load_store:
  assumes "executable_ok w" and "readable w ConfigPath"
      and "files w ConfigPath = Some f" and "fdata f = Doc (marshal_ConfigFile c)"
  shows "loadConfig hn w = (Inr \<lparr>Configurations = map as_written (Configurations c)\<rparr>, w)"
  using assms by (simp add: loadConfig_def ReadFile_def unmarshal_marshal_ConfigFile)

lemma load_empty:
  assumes "executable_ok w" and "files w ConfigPath = None" and "autoImport hn w = None"
  shows "loadConfig hn w = (Inr \<lparr>Configurations = []\<rparr>, w)"
  using assms by (simp add: loadConfig_def)

lemma fresh_linux_flags:
  "executable_ok fresh_linux" "readable fresh_linux p" "writable fresh_linux p"
  "files fresh_linux p = None" "GOOS fresh_linux = Linux" "home_ok fresh_linux"
  "mkdir_ok fresh_linux" "umask fresh_linux = 18"
  by (simp_all add: fresh_linux_def)

lemma both_active_world_flags:
  "executable_ok both_active_world" "readable both_active_world p" "writable both_active_world p"
  "files both_active_world ConfigPath
     = Some \<lparr>fdata = Doc (marshal_ConfigFile both_active), fmode = 420\<rparr>"
  "GOOS both_active_world = Linux"
  by (simp_all add: both_active_world_def fresh_linux_def)

lemma example_profiles_as_written:
  "as_written work_profile = work_profile" "as_written home_profile = home_profile"
  "as_written (work_profile\<lparr>Active := True\<rparr>) = work_profile\<lparr>Active := True\<rparr>"
  by code_simp+

lemma load_both_active: "loadConfig hn both_active_world = (Inr both_active, both_active_world)"
  using load_store [of both_active_world _ both_active hn]
  by (simp add: both_active_world_flags both_active_def example_profiles_as_written)

lemma autoImport_fresh_linux: "autoImport hn fresh_linux = None"
  by (simp add: autoImport_def importFromUnixSettings_def ReadFile_def fresh_linux_flags)

lemma load_fresh_linux: "loadConfig hn fresh_linux = (Inr \<lparr>Configurations = []\<rparr>, fresh_linux)"
  by (rule load_empty) (simp_all add: fresh_linux_flags autoImport_fresh_linux)


subsection \<open>Adding\<close>

text \<open>
  Claim C4. With \<open>c\<close> the collection that \<^const>\<open>loadConfig\<close> returns,
  \<^const>\<open>addConfiguration\<close> fails with \<open>DuplicateName\<close> exactly when a configuration
  of \<open>c\<close> has the given name, and then changes nothing; otherwise it saves \<open>c\<close> with
  one new configuration at the end, active exactly when \<open>c\<close> was empty, and the
  configurations of \<open>c\<close> before it as they were. That save succeeds when the store can
  be written.
\<close>

theorem addConfiguration_appends:
  assumes "loadConfig hn w = (Inr c, w1)"
  shows "(fst (addConfiguration hn w n u k) = Inl (DuplicateName n)
            \<longleftrightarrow> (\<exists>p \<in> set (Configurations c). Name p = n))
     \<and> ((\<exists>p \<in> set (Configurations c). Name p = n) \<longrightarrow>
           addConfiguration hn w n u k = (Inl (DuplicateName n), w1))
     \<and> (\<not> (\<exists>p \<in> set (Configurations c). Name p = n) \<longrightarrow>
           addConfiguration hn w n u k
             = saveConfig w1 \<lparr>Configurations = Configurations c
                 @ [\<lparr>Name = n, BaseURL = u, APIKey = k, Active = (Configurations c = [])\<rparr>]\<rparr>)
     \<and> (\<not> (\<exists>p \<in> set (Configurations c). Name p = n) \<and> writable w ConfigPath \<longrightarrow>
           fst (addConfiguration hn w n u k) = Inr ())
     \<and> (addConfiguration hn w n u k = (Inr (), w') \<longrightarrow>
           (\<exists>f. files w' ConfigPath = Some f
              \<and> fdata f = Doc (marshal_ConfigFile \<lparr>Configurations = Configurations c
                   @ [\<lparr>Name = n, BaseURL = u, APIKey = k, Active = (Configurations c = [])\<rparr>]\<rparr>)))"
proof -
  let ?new = "\<lparr>Configurations = Configurations c
                 @ [\<lparr>Name = n, BaseURL = u, APIKey = k, Active = (Configurations c = [])\<rparr>]\<rparr>"
  note add = addConfiguration_loaded [OF assms, of n u k]
  have dup: "(\<exists>p \<in> set (Configurations c). Name p = n) \<longrightarrow>
           addConfiguration hn w n u k = (Inl (DuplicateName n), w1)"
    using add by simp
  have fresh: "\<not> (\<exists>p \<in> set (Configurations c). Name p = n) \<longrightarrow>
           addConfiguration hn w n u k = saveConfig w1 ?new"
    using add by simp
  have iff: "fst (addConfiguration hn w n u k) = Inl (DuplicateName n)
            \<longleftrightarrow> (\<exists>p \<in> set (Configurations c). Name p = n)"
  proof
    assume l: "fst (addConfiguration hn w n u k) = Inl (DuplicateName n)"
    show "\<exists>p \<in> set (Configurations c). Name p = n"
    proof (rule ccontr)
      assume "\<not> (\<exists>p \<in> set (Configurations c). Name p = n)"
      with fresh l have "fst (saveConfig w1 ?new) = Inl (DuplicateName n)" by simp
      from saveConfig_not_domain [OF this] show False by simp
    qed
  next
    assume "\<exists>p \<in> set (Configurations c). Name p = n"
    with dup show "fst (addConfiguration hn w n u k) = Inl (DuplicateName n)" by simp
  qed
  have ok: "\<not> (\<exists>p \<in> set (Configurations c). Name p = n) \<and> writable w ConfigPath \<longrightarrow>
           fst (addConfiguration hn w n u k) = Inr ()"
  proof
    assume a: "\<not> (\<exists>p \<in> set (Configurations c). Name p = n) \<and> writable w ConfigPath"
    from loadConfig_frame [OF assms] loadConfig_Inr_ok [OF assms] a
    have "executable_ok w1" and "writable w1 ConfigPath" by simp_all
    from saveConfig_succeeds [OF this] fresh a show "fst (addConfiguration hn w n u k) = Inr ()"
      by simp
  qed
  have written: "addConfiguration hn w n u k = (Inr (), w') \<longrightarrow>
           (\<exists>f. files w' ConfigPath = Some f \<and> fdata f = Doc (marshal_ConfigFile ?new))"
  proof
    assume s: "addConfiguration hn w n u k = (Inr (), w')"
    with dup have "\<not> (\<exists>p \<in> set (Configurations c). Name p = n)" by auto
    with fresh s have "saveConfig w1 ?new = (Inr (), w')" by simp
    from saveConfig_written [OF this]
    show "\<exists>f. files w' ConfigPath = Some f \<and> fdata f = Doc (marshal_ConfigFile ?new)" .
  qed
  from iff dup fresh ok written show ?thesis by blast
qed


theorem addConfiguration_appends_witness:
  "loadConfig plain_hostname fresh_linux = (Inr \<lparr>Configurations = []\<rparr>, fresh_linux)
   \<and> fst (addConfiguration plain_hostname fresh_linux ''work'' ''https://api.anthropic.com'' ''sk-work-0001'')
       = Inr ()
   \<and> stored (snd (addConfiguration plain_hostname fresh_linux ''work'' ''https://api.anthropic.com'' ''sk-work-0001''))
       = Some \<lparr>Configurations = [work_profile\<lparr>Active := True\<rparr>]\<rparr>
   \<and> loadConfig plain_hostname both_active_world = (Inr both_active, both_active_world)
   \<and> addConfiguration plain_hostname both_active_world ''home'' ''u'' ''k''
       = (Inl (DuplicateName ''home''), both_active_world)"
proof -
  let ?r = "addConfiguration plain_hostname fresh_linux ''work'' ''https://api.anthropic.com'' ''sk-work-0001''"
  note fresh = addConfiguration_appends [OF load_fresh_linux [of plain_hostname], of "''work''"
      "''https://api.anthropic.com''" "''sk-work-0001''" "snd ?r"]
  from fresh [THEN conjunct2, THEN conjunct2, THEN conjunct2, THEN conjunct1]
  have ok: "fst ?r = Inr ()"
    by (simp add: fresh_linux_flags)
  then have "?r = (Inr (), snd ?r)" by (metis prod.collapse)
  with fresh [THEN conjunct2, THEN conjunct2, THEN conjunct2, THEN conjunct2]
  obtain f where f: "files (snd ?r) ConfigPath = Some f"
    "fdata f = Doc (marshal_ConfigFile \<lparr>Configurations = [work_profile\<lparr>Active := True\<rparr>]\<rparr>)"
    by (auto simp: work_profile_def)
  then have st: "stored (snd ?r) = Some \<lparr>Configurations = [work_profile\<lparr>Active := True\<rparr>]\<rparr>"
    by (simp add: stored_def unmarshal_marshal_ConfigFile example_profiles_as_written)
  have "\<exists>p \<in> set (Configurations both_active). Name p = ''home''"
    by (simp add: both_active_def home_profile_def)
  with addConfiguration_appends [OF load_both_active [of plain_hostname], of "''home''" "''u''" "''k''"]
  have dup: "addConfiguration plain_hostname both_active_world ''home'' ''u'' ''k''
       = (Inl (DuplicateName ''home''), both_active_world)"
    by blast
  from ok st dup load_fresh_linux load_both_active show ?thesis by blast
qed

subsection \<open>The single active configuration\<close>

lemma at_most_one_active_flags:
  "at_most_one_active cs \<longleftrightarrow> length (filter id (map Active cs)) \<le> 1"
  by (simp add: at_most_one_active_def length_filter_map o_def)

lemma at_most_one_active_as_written:
  "at_most_one_active (map as_written cs) = at_most_one_active cs"
  by (simp add: at_most_one_active_flags o_def as_written_def)

lemma at_most_one_active_append:
  "at_most_one_active cs \<Longrightarrow> Active p = (cs = []) \<Longrightarrow> at_most_one_active (cs @ [p])"
  by (cases "cs = []") (simp_all add: at_most_one_active_def)

lemma at_most_one_active_update:
  "at_most_one_active cs \<Longrightarrow> i < length cs \<Longrightarrow> Active p = Active (cs ! i) \<Longrightarrow>
     at_most_one_active (cs[i := p])"
proof -
  assume a: "at_most_one_active cs" and i: "i < length cs" and p: "Active p = Active (cs ! i)"
  from i p have "map Active (cs[i := p]) = map Active cs"
    by (simp add: map_update list_update_same_conv)
  with a show ?thesis by (simp add: at_most_one_active_flags)
qed

lemma at_most_one_active_filter:
  "at_most_one_active cs \<Longrightarrow> at_most_one_active (filter Q cs)"
proof -
  assume a: "at_most_one_active cs"
  have "filter Active (filter Q cs) = filter Q (filter Active cs)"
    by (induction cs) simp_all
  then have "length (filter Active (filter Q cs)) \<le> length (filter Active cs)"
    by (simp only: length_filter_le)
  with a show ?thesis by (simp add: at_most_one_active_def)
qed

lemma at_most_one_active_setActive:
  "length (filter (\<lambda>p. Name p = n) cs) \<le> 1 \<Longrightarrow>
     at_most_one_active (Configurations (setActiveConfiguration \<lparr>Configurations = cs\<rparr> n))"
  by (simp add: at_most_one_active_def setActiveConfiguration_def length_filter_map o_def)

lemma stored_files: "files w' ConfigPath = files w ConfigPath \<Longrightarrow> stored w' = stored w"
  by (simp add: stored_def)

lemma ConfigFile_eta: "\<lparr>Configurations = Configurations c\<rparr> = c"
  by (cases c) simp

lemma stored_single_active:
  assumes "stored w' = Some \<lparr>Configurations = map as_written cs\<rparr>" and "at_most_one_active cs"
  shows "\<exists>c'. stored w' = Some c' \<and> at_most_one_active (Configurations c')"
  using assms by (simp add: at_most_one_active_as_written)


text \<open>
  Claim C1, amended. When the loaded collection has at most one active configuration,
  the collection in the store after a successful \<^const>\<open>addConfiguration\<close>,
  \<^const>\<open>updateConfiguration\<close> or \<^const>\<open>deleteConfiguration\<close> has at most one; and
  when the loaded collection has at most one configuration named \<open>n\<close>, so has the
  collection in the store after a successful \<^const>\<open>activateConfiguration\<close> of \<open>n\<close>.
  Nothing checks the flags or the names of a store file when it is loaded.
\<close>

theorem operations_preserve_single_active:
  assumes "loadConfig hn w = (Inr c, w1)"
  shows "(at_most_one_active (Configurations c) \<and> addConfiguration hn w n u k = (Inr (), w') \<longrightarrow>
            (\<exists>c'. stored w' = Some c' \<and> at_most_one_active (Configurations c')))
     \<and> (at_most_one_active (Configurations c) \<and> updateConfiguration hn w n u k = (Inr (), w') \<longrightarrow>
            (\<exists>c'. stored w' = Some c' \<and> at_most_one_active (Configurations c')))
     \<and> (at_most_one_active (Configurations c) \<and> deleteConfiguration hn w n = (Inr (), w') \<longrightarrow>
            (\<exists>c'. stored w' = Some c' \<and> at_most_one_active (Configurations c')))
     \<and> (length (filter (\<lambda>p. Name p = n) (Configurations c)) \<le> 1
          \<and> activateConfiguration hn w n = (Inr (), w') \<longrightarrow>
            (\<exists>c'. stored w' = Some c' \<and> at_most_one_active (Configurations c')))"
proof (intro conjI impI)
  assume a: "at_most_one_active (Configurations c) \<and> addConfiguration hn w n u k = (Inr (), w')"
  let ?p = "\<lparr>Name = n, BaseURL = u, APIKey = k, Active = (Configurations c = [])\<rparr>"
  from a addConfiguration_loaded [OF assms, of n u k]
  have "saveConfig w1 \<lparr>Configurations = Configurations c @ [?p]\<rparr> = (Inr (), w')"
    by (simp split: if_splits)
  from stored_after_save [OF this]
  have st: "stored w' = Some \<lparr>Configurations = map as_written (Configurations c @ [?p])\<rparr>"
    by simp
  from a have inv: "at_most_one_active (Configurations c @ [?p])"
    by (simp add: at_most_one_active_append)
  from st inv show "\<exists>c'. stored w' = Some c' \<and> at_most_one_active (Configurations c')"
    by (rule stored_single_active)
next
  assume a: "at_most_one_active (Configurations c) \<and> updateConfiguration hn w n u k = (Inr (), w')"
  from a updateConfiguration_loaded [OF assms, of n u k]
  obtain i where i: "findConfiguration c n = Some i"
    by (cases "findConfiguration c n") auto
  let ?p = "(Configurations c ! i)
                 \<lparr>BaseURL := (if u \<noteq> [] then u else BaseURL (Configurations c ! i)),
                  APIKey := (if k \<noteq> [] then k else APIKey (Configurations c ! i))\<rparr>"
  from a i updateConfiguration_loaded [OF assms, of n u k]
  have "saveConfig w1 \<lparr>Configurations = (Configurations c)[i := ?p]\<rparr> = (Inr (), w')"
    by simp
  from stored_after_save [OF this]
  have st: "stored w' = Some \<lparr>Configurations = map as_written ((Configurations c)[i := ?p])\<rparr>"
    by simp
  from a findConfiguration_Some [OF i]
  have inv: "at_most_one_active ((Configurations c)[i := ?p])"
    by (intro at_most_one_active_update) simp_all
  from st inv show "\<exists>c'. stored w' = Some c' \<and> at_most_one_active (Configurations c')"
    by (rule stored_single_active)
next
  assume a: "at_most_one_active (Configurations c) \<and> deleteConfiguration hn w n = (Inr (), w')"
  from a deleteConfiguration_loaded [OF assms, of n]
  have "saveConfig w1 \<lparr>Configurations = filter (\<lambda>p. Name p \<noteq> n) (Configurations c)\<rparr> = (Inr (), w')"
    by (simp split: option.splits if_splits)
  from stored_after_save [OF this]
  have st: "stored w' = Some \<lparr>Configurations =
          map as_written (filter (\<lambda>p. Name p \<noteq> n) (Configurations c))\<rparr>"
    by simp
  from a have inv: "at_most_one_active (filter (\<lambda>p. Name p \<noteq> n) (Configurations c))"
    by (simp add: at_most_one_active_filter)
  from st inv show "\<exists>c'. stored w' = Some c' \<and> at_most_one_active (Configurations c')"
    by (rule stored_single_active)
next
  assume a: "length (filter (\<lambda>p. Name p = n) (Configurations c)) \<le> 1
          \<and> activateConfiguration hn w n = (Inr (), w')"
  from a activateConfiguration_loaded [OF assms, of n]
  obtain i where i: "findConfiguration c n = Some i"
    by (cases "findConfiguration c n") auto
  let ?c = "setActiveConfiguration c n"
  from a i activateConfiguration_loaded [OF assms, of n]
  obtain w2 where s: "saveConfig w1 ?c = (Inr (), w2)"
    and p: "apply_settings w2 (Configurations ?c ! i) = (Inr (), w')"
    by (auto split: prod.splits sum.splits)
  from apply_settings_store [of w2 "Configurations ?c ! i"] p
  have "files w' ConfigPath = files w2 ConfigPath" by simp
  then have "stored w' = stored w2" by (rule stored_files)
  with stored_after_save [OF s]
  have st: "stored w' = Some \<lparr>Configurations = map as_written (Configurations ?c)\<rparr>"
    by simp
  from a at_most_one_active_setActive [of n "Configurations c"]
  have inv: "at_most_one_active (Configurations ?c)"
    by (simp add: ConfigFile_eta)
  from st inv show "\<exists>c'. stored w' = Some c' \<and> at_most_one_active (Configurations c')"
    by (rule stored_single_active)
qed

lemma two_profiles_world_flags:
  "executable_ok two_profiles_world" "readable two_profiles_world p" "writable two_profiles_world p"
  "files two_profiles_world ConfigPath
     = Some \<lparr>fdata = Doc (marshal_ConfigFile two_profiles), fmode = 420\<rparr>"
  "files two_profiles_world SettingsPath = None"
  "GOOS two_profiles_world = Linux" "home_ok two_profiles_world" "mkdir_ok two_profiles_world"
  by (simp_all add: two_profiles_world_def fresh_linux_def)

lemma load_two_profiles:
  "loadConfig hn two_profiles_world = (Inr two_profiles, two_profiles_world)"
  using load_store [of two_profiles_world _ two_profiles hn]
  by (simp add: two_profiles_world_flags two_profiles_def example_profiles_as_written)

lemma setUnixSettingsFile_succeeds:
  assumes "home_ok w" and "mkdir_ok w" and "writable w SettingsPath"
      and "files w SettingsPath = None \<or> readable w SettingsPath"
  shows "fst (setUnixSettingsFile w conf) = Inr ()"
  using assms
  by (auto simp: setUnixSettingsFile_def read_settings_def ReadFile_def WriteFile_def Let_def
      split: option.splits data.splits)

lemma find_work: "findConfiguration two_profiles ''work'' = Some 0"
  by (simp add: findConfiguration_def two_profiles_def work_profile_def)

lemma pair_fst: "fst r = a \<Longrightarrow> r = (a, snd r)"
  by (cases r) simp


theorem operations_preserve_single_active_witness:
  "loadConfig plain_hostname two_profiles_world = (Inr two_profiles, two_profiles_world)
   \<and> at_most_one_active (Configurations two_profiles)
   \<and> length (filter (\<lambda>p. Name p = ''work'') (Configurations two_profiles)) \<le> 1
   \<and> fst (addConfiguration plain_hostname two_profiles_world ''third'' ''u'' ''k'') = Inr ()
   \<and> (\<exists>c'. stored (snd (addConfiguration plain_hostname two_profiles_world ''third'' ''u'' ''k''))
               = Some c' \<and> at_most_one_active (Configurations c'))
   \<and> fst (updateConfiguration plain_hostname two_profiles_world ''work'' [] ''k2'') = Inr ()
   \<and> (\<exists>c'. stored (snd (updateConfiguration plain_hostname two_profiles_world ''work'' [] ''k2''))
               = Some c' \<and> at_most_one_active (Configurations c'))
   \<and> fst (deleteConfiguration plain_hostname two_profiles_world ''work'') = Inr ()
   \<and> (\<exists>c'. stored (snd (deleteConfiguration plain_hostname two_profiles_world ''work''))
               = Some c' \<and> at_most_one_active (Configurations c'))
   \<and> fst (activateConfiguration plain_hostname two_profiles_world ''work'') = Inr ()
   \<and> (\<exists>c'. stored (snd (activateConfiguration plain_hostname two_profiles_world ''work''))
               = Some c' \<and> at_most_one_active (Configurations c'))"
proof -
  note load = load_two_profiles [of plain_hostname]
  note ok = two_profiles_world_flags
  have inv: "at_most_one_active (Configurations two_profiles)"
    by (simp add: at_most_one_active_def two_profiles_def work_profile_def home_profile_def)
  have one: "length (filter (\<lambda>p. Name p = ''work'') (Configurations two_profiles)) \<le> 1"
    by (simp add: two_profiles_def work_profile_def home_profile_def)
  let ?a = "addConfiguration plain_hostname two_profiles_world ''third'' ''u'' ''k''"
  let ?u = "updateConfiguration plain_hostname two_profiles_world ''work'' [] ''k2''"
  let ?d = "deleteConfiguration plain_hostname two_profiles_world ''work''"
  let ?s = "activateConfiguration plain_hostname two_profiles_world ''work''"
  have a: "fst ?a = Inr ()"
    using addConfiguration_loaded [OF load, of "''third''" "''u''" "''k''"]
    by (simp add: two_profiles_def work_profile_def home_profile_def saveConfig_succeeds ok)
  have u: "fst ?u = Inr ()"
    using updateConfiguration_loaded [OF load, of "''work''" "[]" "''k2''"]
    by (simp add: find_work saveConfig_succeeds ok)
  have d: "fst ?d = Inr ()"
    using deleteConfiguration_loaded [OF load, of "''work''"]
    by (simp add: find_work saveConfig_succeeds ok) (simp add: two_profiles_def work_profile_def)
  have s: "fst ?s = Inr ()"
  proof -
    let ?c = "setActiveConfiguration two_profiles ''work''"
    have sv: "fst (saveConfig two_profiles_world ?c) = Inr ()"
      by (simp add: saveConfig_succeeds ok)
    let ?w2 = "snd (saveConfig two_profiles_world ?c)"
    from saveConfig_frame [OF pair_fst [OF sv]]
    have "GOOS ?w2 = Linux" "home_ok ?w2" "mkdir_ok ?w2" "files ?w2 SettingsPath = None"
      by (simp_all add: ok)
    moreover have "writable ?w2 SettingsPath"
      using pair_fst [OF sv] by (simp add: saveConfig_Inr ok)
    ultimately have "fst (apply_settings ?w2 (Configurations ?c ! 0)) = Inr ()"
      by (simp add: apply_settings_def setUnixSettingsFile_succeeds)
    with activateConfiguration_loaded [OF load, of "''work''"] pair_fst [OF sv]
    show ?thesis
      by (simp add: find_work split: prod.splits sum.splits)
  qed
  note pres = operations_preserve_single_active [OF load]
  from pres [of "''third''" "''u''" "''k''" "snd ?a"] inv pair_fst [OF a]
  have a': "\<exists>c'. stored (snd ?a) = Some c' \<and> at_most_one_active (Configurations c')"
    by blast
  from pres [of "''work''" "[]" "''k2''" "snd ?u"] inv pair_fst [OF u]
  have u': "\<exists>c'. stored (snd ?u) = Some c' \<and> at_most_one_active (Configurations c')"
    by blast
  from pres [of "''work''" _ _ "snd ?d"] inv pair_fst [OF d]
  have d': "\<exists>c'. stored (snd ?d) = Some c' \<and> at_most_one_active (Configurations c')"
    by blast
  from pres [of "''work''" _ _ "snd ?s"] one pair_fst [OF s]
  have s': "\<exists>c'. stored (snd ?s) = Some c' \<and> at_most_one_active (Configurations c')"
    by blast
  from load inv one a a' u u' d d' s s' show ?thesis by blast
qed

text \<open>
  Without the condition the statement fails: a store file with two active
  configurations loads as it is, and after a successful \<^const>\<open>addConfiguration\<close> the
  store holds both of them and the new one.
\<close>

lemma not_single_active_example:
  "\<not> at_most_one_active (Configurations both_active
       @ [\<lparr>Name = ''third'', BaseURL = ''https://third.example'', APIKey = ''sk-0005'',
           Active = False\<rparr>])"
  by (simp add: at_most_one_active_def both_active_def work_profile_def home_profile_def)


theorem add_keeps_two_active_counterexample:
  "fst (addConfiguration plain_hostname both_active_world
          ''third'' ''https://third.example'' ''sk-0005'') = Inr ()
   \<and> stored (snd (addConfiguration plain_hostname both_active_world
          ''third'' ''https://third.example'' ''sk-0005''))
       = Some \<lparr>Configurations = Configurations both_active
           @ [\<lparr>Name = ''third'', BaseURL = ''https://third.example'', APIKey = ''sk-0005'',
               Active = False\<rparr>]\<rparr>
   \<and> \<not> at_most_one_active (Configurations both_active
           @ [\<lparr>Name = ''third'', BaseURL = ''https://third.example'', APIKey = ''sk-0005'',
               Active = False\<rparr>])"
proof -
  let ?r = "addConfiguration plain_hostname both_active_world
          ''third'' ''https://third.example'' ''sk-0005''"
  let ?new = "\<lparr>Configurations = Configurations both_active
           @ [\<lparr>Name = ''third'', BaseURL = ''https://third.example'', APIKey = ''sk-0005'',
               Active = False\<rparr>]\<rparr>"
  have eq: "?r = saveConfig both_active_world ?new"
    using addConfiguration_loaded [OF load_both_active [of plain_hostname], of "''third''"
        "''https://third.example''" "''sk-0005''"]
    by (simp add: both_active_def work_profile_def home_profile_def)
  have ok: "fst ?r = Inr ()"
    unfolding eq by (rule saveConfig_succeeds) (simp_all add: both_active_world_flags)
  then have "saveConfig both_active_world ?new = (Inr (), snd ?r)"
    unfolding eq by (metis prod.collapse)
  from stored_after_save [OF this]
  have "stored (snd ?r) = Some \<lparr>Configurations = map as_written (Configurations ?new)\<rparr>" .
  moreover have "map as_written (Configurations ?new) = Configurations ?new"
    by (simp add: both_active_def example_profiles_as_written) code_simp
  ultimately have "stored (snd ?r) = Some ?new" by simp
  with ok not_single_active_example show ?thesis by blast
qed

subsection \<open>Errors and the store\<close>

lemma domain_error_after_load:
  assumes "loadConfig hn w = (Inr c, w1)"
      and "r = addConfiguration hn w n u k \<or> r = updateConfiguration hn w n u k
           \<or> r = deleteConfiguration hn w n \<or> r = activateConfiguration hn w n"
      and "fst r = Inl e" and "domain_error e"
  shows "snd r = w1"
proof -
  have save: "\<And>x. fst (saveConfig w1 x) \<noteq> Inl e"
    using saveConfig_not_domain assms(4) by blast
  from assms(2) consider
      (add) "r = addConfiguration hn w n u k" | (upd) "r = updateConfiguration hn w n u k"
    | (del) "r = deleteConfiguration hn w n" | (act) "r = activateConfiguration hn w n"
    by blast
  then show ?thesis
  proof cases
    case add
    with assms(3) save addConfiguration_loaded [OF assms(1), of n u k] show ?thesis
      by (auto split: if_splits)
  next
    case upd
    with assms(3) save updateConfiguration_loaded [OF assms(1), of n u k] show ?thesis
      by (auto split: option.splits)
  next
    case del
    with assms(3) save deleteConfiguration_loaded [OF assms(1), of n] show ?thesis
      by (auto split: option.splits if_splits)
  next
    case act
    show ?thesis
    proof (cases "findConfiguration c n")
      case None
      with act activateConfiguration_loaded [OF assms(1), of n] show ?thesis by simp
    next
      case (Some i)
      obtain r2 w2 where s: "saveConfig w1 (setActiveConfiguration c n) = (r2, w2)"
        by (cases "saveConfig w1 (setActiveConfiguration c n)")
      show ?thesis
      proof (cases r2)
        case (Inl e2)
        with s Some act activateConfiguration_loaded [OF assms(1), of n]
        have "r = (Inl e2, w2)" by simp
        with assms(3) have "e2 = e" by simp
        with s Inl save [of "setActiveConfiguration c n"] show ?thesis by simp
      next
        case (Inr ok)
        with s Some act activateConfiguration_loaded [OF assms(1), of n]
        have "r = apply_settings w2 (Configurations (setActiveConfiguration c n) ! i)" by simp
        with assms(3) apply_settings_not_domain assms(4) show ?thesis by blast
      qed
    qed
  qed
qed

lemma error_at_load:
  assumes "loadConfig hn w = (Inl e', w1)"
      and "r = addConfiguration hn w n u k \<or> r = updateConfiguration hn w n u k
           \<or> r = deleteConfiguration hn w n \<or> r = activateConfiguration hn w n"
  shows "r = (Inl e', w1)"
  using assms
  by (auto simp: addConfiguration_def updateConfiguration_def deleteConfiguration_def
      activateConfiguration_def)


text \<open>
  Claim C3, amended. When \<^const>\<open>addConfiguration\<close>, \<^const>\<open>updateConfiguration\<close>,
  \<^const>\<open>deleteConfiguration\<close> or \<^const>\<open>activateConfiguration\<close> fails with
  \<open>DuplicateName\<close>, \<open>NotFound\<close> or \<open>ActiveProfileDeletion\<close>, nothing is written after
  \<^const>\<open>loadConfig\<close>: the world is as \<^const>\<open>loadConfig\<close> left it, which is the world
  before the call when the store file exists or there is nothing to import. And
  \<^const>\<open>deleteConfiguration\<close> fails with \<open>ActiveProfileDeletion\<close> whenever the
  configuration that \<^const>\<open>findConfiguration\<close> finds is active.
\<close>

theorem domain_errors_write_nothing:
  assumes "r = addConfiguration hn w n u k \<or> r = updateConfiguration hn w n u k
           \<or> r = deleteConfiguration hn w n \<or> r = activateConfiguration hn w n"
      and "fst r = Inl e" and "domain_error e"
  shows "snd r = snd (loadConfig hn w)
     \<and> (files w ConfigPath \<noteq> None \<or> autoImport hn w = None \<longrightarrow> snd r = w)
     \<and> (loadConfig hn w = (Inr c, w1) \<and> findConfiguration c n = Some i
          \<and> Active (Configurations c ! i) \<longrightarrow>
            deleteConfiguration hn w n = (Inl (ActiveProfileDeletion n), w1))"
proof -
  obtain r0 w0 where l: "loadConfig hn w = (r0, w0)"
    by (cases "loadConfig hn w")
  have same: "snd r = snd (loadConfig hn w)"
  proof (cases r0)
    case (Inl e')
    with l error_at_load [OF _ assms(1)] show ?thesis by simp
  next
    case (Inr c0)
    with l domain_error_after_load [OF _ assms] show ?thesis by simp
  qed
  have unchanged: "files w ConfigPath \<noteq> None \<or> autoImport hn w = None \<longrightarrow> snd r = w"
    using same loadConfig_existing [of w hn] loadConfig_nothing_to_import [of hn w] by auto
  have active: "loadConfig hn w = (Inr c, w1) \<and> findConfiguration c n = Some i
          \<and> Active (Configurations c ! i) \<longrightarrow>
            deleteConfiguration hn w n = (Inl (ActiveProfileDeletion n), w1)"
  proof
    assume a: "loadConfig hn w = (Inr c, w1) \<and> findConfiguration c n = Some i
          \<and> Active (Configurations c ! i)"
    then have "loadConfig hn w = (Inr c, w1)" by simp
    from deleteConfiguration_loaded [OF this, of n] a
    show "deleteConfiguration hn w n = (Inl (ActiveProfileDeletion n), w1)" by simp
  qed
  from same unchanged active show ?thesis by blast
qed


lemma find_home: "findConfiguration two_profiles ''home'' = Some 1"
  by (simp add: findConfiguration_def two_profiles_def work_profile_def home_profile_def)


theorem domain_errors_write_nothing_witness:
  "deleteConfiguration plain_hostname two_profiles_world ''home''
     = (Inl (ActiveProfileDeletion ''home''), two_profiles_world)
   \<and> domain_error (ActiveProfileDeletion ''home'')
   \<and> files two_profiles_world ConfigPath \<noteq> None
   \<and> loadConfig plain_hostname two_profiles_world = (Inr two_profiles, two_profiles_world)
   \<and> findConfiguration two_profiles ''home'' = Some 1
   \<and> Active (Configurations two_profiles ! 1)"
proof -
  let ?r = "deleteConfiguration plain_hostname two_profiles_world ''home''"
  note load = load_two_profiles [of plain_hostname]
  have act: "Active (Configurations two_profiles ! 1)"
    by (simp add: two_profiles_def home_profile_def)
  have e: "fst ?r = Inl (ActiveProfileDeletion ''home'')"
    using deleteConfiguration_loaded [OF load, of "''home''"]
    by (simp add: find_home) (simp add: two_profiles_def home_profile_def)
  have d: "domain_error (ActiveProfileDeletion ''home'')" by simp
  have f: "files two_profiles_world ConfigPath \<noteq> None"
    by (simp add: two_profiles_world_flags)
  have r: "?r = deleteConfiguration plain_hostname two_profiles_world ''home''" by simp
  from domain_errors_write_nothing
         [of ?r plain_hostname two_profiles_world "''home''" _ _ _ two_profiles
             two_profiles_world 1, OF _ e d] r f load find_home act
  have "snd ?r = two_profiles_world
     \<and> ?r = (Inl (ActiveProfileDeletion ''home''), two_profiles_world)"
    by blast
  with d f load find_home act show ?thesis by blast
qed


text \<open>
  Without the condition the statement fails: on the first run, with settings to import
  and no store file, \<^const>\<open>deleteConfiguration\<close> of the imported configuration fails
  with \<open>ActiveProfileDeletion\<close>, and the store file has been created by then.
\<close>

theorem delete_on_first_run_counterexample:
  "files first_run_world ConfigPath = None
   \<and> fst (deleteConfiguration plain_hostname first_run_world ''anthropic'')
       = Inl (ActiveProfileDeletion ''anthropic'')
   \<and> files (snd (deleteConfiguration plain_hostname first_run_world ''anthropic'')) ConfigPath
       = Some \<lparr>fdata = Doc (marshal_ConfigFile
                  \<lparr>Configurations = [\<lparr>Name = ''anthropic'', BaseURL = ''https://api.anthropic.com'',
                                      APIKey = ''sk-ant-0004'', Active = True\<rparr>]\<rparr>),
               fmode = 420\<rparr>"
  by code_simp

subsection \<open>Permissions of the store file\<close>

lemma created_mode_within: "(p AND NOT u) AND NOT p = (0 :: 32 word)"
  by (simp add: bit_eq_iff bit_simps)


text \<open>
  Claim C8, amended. A successful \<^const>\<open>saveConfig\<close> leaves the store file with the
  collection as its content; a file it creates has the permissions \<^verbatim>\<open>0644\<close> (420:
  read and write for the owner, read for the group and for others) less the bits of the
  umask, and never a bit beyond \<^verbatim>\<open>0644\<close>; a file that was there keeps its permissions.
\<close>

theorem saveConfig_permissions:
  assumes "saveConfig w c = (Inr (), w')"
  shows "\<exists>f. files w' ConfigPath = Some f
           \<and> fdata f = Doc (marshal_ConfigFile c)
           \<and> fmode f = (case files w ConfigPath of
                           None \<Rightarrow> 420 AND NOT (umask w)
                         | Some old \<Rightarrow> fmode old)
           \<and> (files w ConfigPath = None \<longrightarrow> fmode f AND NOT 420 = 0)"
proof (cases "files w ConfigPath")
  case None
  let ?f = "\<lparr>fdata = Doc (marshal_ConfigFile c), fmode = 420 AND NOT (umask w)\<rparr>"
  from assms None have "files w' ConfigPath = Some ?f"
    by (simp add: saveConfig_Inr)
  moreover have "fmode ?f AND NOT 420 = 0"
    using created_mode_within [of 420 "umask w"] by (simp only: stored_file.simps)
  ultimately show ?thesis
    using None by (intro exI [of _ ?f]) (simp only: stored_file.simps option.case simp_thms)
next
  case (Some old)
  with assms have "files w' ConfigPath = Some (old\<lparr>fdata := Doc (marshal_ConfigFile c)\<rparr>)"
    by (simp add: saveConfig_Inr)
  with Some show ?thesis by simp
qed


theorem saveConfig_permissions_witness:
  "saveConfig fresh_linux two_profiles
     = (Inr (), snd (saveConfig fresh_linux two_profiles))
   \<and> files fresh_linux ConfigPath = None
   \<and> files (snd (saveConfig fresh_linux two_profiles)) ConfigPath
       = Some \<lparr>fdata = Doc (marshal_ConfigFile two_profiles), fmode = 420 AND NOT 18\<rparr>"
proof -
  have ok: "saveConfig fresh_linux two_profiles
     = (Inr (), snd (saveConfig fresh_linux two_profiles))"
    by (rule pair_fst) (simp add: saveConfig_succeeds fresh_linux_flags)
  from saveConfig_permissions [OF ok] ok show ?thesis
    by (auto simp: fresh_linux_flags)
qed


text \<open>
  The permissions are not \<^verbatim>\<open>0600\<close> (384): with the usual umask \<^verbatim>\<open>022\<close> the new store
  file has the mode 420, in which the read bits of the group and of others (36) are set.
\<close>

theorem saveConfig_mode_counterexample:
  "fst (saveConfig fresh_linux two_profiles) = Inr ()
   \<and> files (snd (saveConfig fresh_linux two_profiles)) ConfigPath
       = Some \<lparr>fdata = Doc (marshal_ConfigFile two_profiles), fmode = 420\<rparr>
   \<and> (420 :: 32 word) \<noteq> 384
   \<and> (420 :: 32 word) AND 36 = 36"
  by (simp add: saveConfig_def WriteFile_def fresh_linux_def)


subsection \<open>Saving and loading back\<close>

text \<open>
  Claim C9, amended. After a successful \<^const>\<open>saveConfig\<close> of a collection, when the
  store file can be read, \<^const>\<open>loadConfig\<close> returns the configurations in the same
  order with the same flags and with each string as \<^const>\<open>ToValidUTF8\<close> wrote it; when
  the names, URLs and keys are valid UTF-8, it returns the collection itself.
\<close>

theorem save_then_load:
  assumes "saveConfig w c = (Inr (), w')" and "readable w' ConfigPath"
  shows "loadConfig hn w' = (Inr \<lparr>Configurations = map as_written (Configurations c)\<rparr>, w')
     \<and> map Active (map as_written (Configurations c)) = map Active (Configurations c)
     \<and> ((\<forall>p \<in> set (Configurations c). valid_Configuration p) \<longrightarrow>
           loadConfig hn w' = (Inr c, w'))"
proof -
  note l = loadConfig_after_save [OF assms, of hn]
  have flags: "map Active (map as_written (Configurations c)) = map Active (Configurations c)"
    by (simp add: as_written_def)
  have "(\<forall>p \<in> set (Configurations c). valid_Configuration p) \<longrightarrow>
           loadConfig hn w' = (Inr c, w')"
  proof
    assume "\<forall>p \<in> set (Configurations c). valid_Configuration p"
    then have "map as_written (Configurations c) = Configurations c"
      by (simp add: as_written_valid map_idI)
    with l show "loadConfig hn w' = (Inr c, w')"
      by (simp add: ConfigFile_eta)
  qed
  with l flags show ?thesis by blast
qed


theorem save_then_load_witness:
  "saveConfig fresh_linux two_profiles = (Inr (), snd (saveConfig fresh_linux two_profiles))
   \<and> readable (snd (saveConfig fresh_linux two_profiles)) ConfigPath
   \<and> valid_Configuration work_profile \<and> valid_Configuration home_profile
   \<and> loadConfig plain_hostname (snd (saveConfig fresh_linux two_profiles))
       = (Inr two_profiles, snd (saveConfig fresh_linux two_profiles))"
proof -
  have ok: "saveConfig fresh_linux two_profiles
     = (Inr (), snd (saveConfig fresh_linux two_profiles))"
    by (rule pair_fst) (simp add: saveConfig_succeeds fresh_linux_flags)
  have rd: "readable (snd (saveConfig fresh_linux two_profiles)) ConfigPath"
    using ok by (simp add: saveConfig_Inr fresh_linux_flags)
  have v: "valid_Configuration work_profile" "valid_Configuration home_profile"
    by code_simp+
  then have "\<forall>p \<in> set (Configurations two_profiles). valid_Configuration p"
    by (simp add: two_profiles_def)
  with save_then_load [OF ok rd, of plain_hostname] ok rd v show ?thesis by blast
qed


text \<open>
  A name that is not valid UTF-8 (the single byte \<open>0xFF\<close>, as a command-line argument
  can be on Linux) does not come back: the store holds U+FFFD in its place.
\<close>

theorem save_then_load_counterexample:
  "fst (saveConfig fresh_linux \<lparr>Configurations = [bad_name_profile]\<rparr>) = Inr ()
   \<and> fst (loadConfig plain_hostname
            (snd (saveConfig fresh_linux \<lparr>Configurations = [bad_name_profile]\<rparr>)))
       = Inr \<lparr>Configurations = [bad_name_profile\<lparr>Name := [CHR 0xEF, CHR 0xBF, CHR 0xBD]\<rparr>]\<rparr>
   \<and> Name bad_name_profile = [CHR 0xFF]"
  by code_simp

section \<open>Properties of the settings file\<close>

subsection \<open>Maps as they are read and written\<close>








lemma decode_members_Cons:
  "decode_members (kv # kvs) =
     (case decode_any (snd kv) of
        None \<Rightarrow> None
      | Some v \<Rightarrow> map_option ((#) (fst kv, v)) (decode_members kvs))"
  by (simp add: decode_members_def split: option.splits)



lemma decode_members_fails:
  "kv \<in> set kvs \<Longrightarrow> decode_any (snd kv) = None \<Longrightarrow> decode_members kvs = None"
  by (induction kvs) (auto simp: decode_members_Cons split: option.splits)


lemma decode_any_object:
  "decode_any (JObj kvs) = map_option (\<lambda>ds. AMap (set_members ds [])) (decode_members kvs)"
  by (simp add: decode_members_def)



lemma fold_option_no_env:
  "filter (\<lambda>kv. EqualFold (fst kv) ''env'') fs = [] \<Longrightarrow>
     fold_option set_ClaudeSettings_field fs s = Some s"
proof (induction fs)
  case Nil
  then show ?case by simp
next
  case (Cons x fs)
  then have "\<not> EqualFold (fst x) ''env''" by (simp split: if_splits)
  then have "set_ClaudeSettings_field x s = Some s"
    by (simp add: set_ClaudeSettings_field_def)
  with Cons show ?case by (simp split: if_splits)
qed

lemma fold_option_one_env:
  "filter (\<lambda>kv. EqualFold (fst kv) ''env'') fs = [(ek, JObj ekvs)] \<Longrightarrow> Env s = None \<Longrightarrow>
     fold_option set_ClaudeSettings_field fs s =
       map_option (\<lambda>ds. s\<lparr>Env := Some (set_members ds [])\<rparr>) (decode_members ekvs)"
proof (induction fs)
  case Nil
  then show ?case by simp
next
  case (Cons x fs)
  show ?case
  proof (cases "EqualFold (fst x) ''env''")
    case True
    with Cons.prems have x: "x = (ek, JObj ekvs)"
      and rest: "filter (\<lambda>kv. EqualFold (fst kv) ''env'') fs = []"
      by simp_all
    from True x Cons.prems(2)
    have "set_ClaudeSettings_field x s =
       map_option (\<lambda>ds. s\<lparr>Env := Some (set_members ds [])\<rparr>) (decode_members ekvs)"
      by (simp add: set_ClaudeSettings_field_def split: option.splits)
    then show ?thesis
      by (cases "decode_members ekvs") (simp_all add: fold_option_no_env [OF rest])
  next
    case False
    then have "set_ClaudeSettings_field x s = Some s"
      by (simp add: set_ClaudeSettings_field_def)
    with False Cons show ?thesis
      by simp
  qed
qed


lemma unmarshal_ClaudeSettings_out_of_range:
  assumes "filter (\<lambda>kv. EqualFold (fst kv) ''env'') fs = [(ek, JObj ekvs)]"
      and "kv \<in> set ekvs" and "decode_any (snd kv) = None"
  shows "unmarshal_ClaudeSettings (JObj fs) = None"
  using fold_option_one_env [OF assms(1), of "\<lparr>Env = None\<rparr>"]
    decode_members_fails [OF assms(2,3)]
  by simp

subsection \<open>Rewriting the settings\<close>





lemma setUnixSettingsFile_reset:
  assumes "home_ok w" and "mkdir_ok w" and "readable w SettingsPath"
      and "writable w SettingsPath"
      and "files w SettingsPath = Some f" and "fdata f = Doc j"
      and "unmarshal_ClaudeSettings j = None"
  shows "setUnixSettingsFile w conf =
     (Inr (), w\<lparr>files := (files w)(SettingsPath \<mapsto> f\<lparr>fdata := Doc (JObj [(''env'',
        marshal_any (AMap (update_env conf (case Env NewClaudeSettings of
                                               None \<Rightarrow> [] | Some m \<Rightarrow> m))))])\<rparr>)\<rparr>)"
  using assms
  by (simp add: setUnixSettingsFile_def read_settings_def ReadFile_def WriteFile_def Let_def
      marshal_ClaudeSettings_def)



lemma out_of_range_world_flags:
  "home_ok out_of_range_world" "mkdir_ok out_of_range_world" "readable out_of_range_world p"
  "writable out_of_range_world p"
  "files out_of_range_world SettingsPath
     = Some \<lparr>fdata = Doc out_of_range_settings, fmode = 384\<rparr>"
  by (simp_all add: out_of_range_world_def fresh_linux_def)








subsection \<open>A file that does not decode\<close>

text \<open>
  When a number of \<^verbatim>\<open>env\<close> is beyond the range of \<^verbatim>\<open>float64\<close>, \<^verbatim>\<open>json.Unmarshal\<close>
  returns an error and the program starts from \<^const>\<open>NewClaudeSettings\<close>: the keys of
  the file are lost, also the strings.
\<close>

lemma out_of_range_settings_rejected:
  "unmarshal_ClaudeSettings out_of_range_settings = None"
  by code_simp

lemma default_env_updated:
  "update_env home_profile (case Env NewClaudeSettings of None \<Rightarrow> [] | Some m \<Rightarrow> m)
     = [(''ANTHROPIC_AUTH_TOKEN'', AString ''sk-home-0002''),
        (''ANTHROPIC_BASE_URL'', AString ''https://example.org''),
        (''API_TIMEOUT_MS'', AString ''3000000''),
        (''CLAUDE_CODE_DISABLE_NONESSENTIAL_TRAFFIC'', ANum float64_one)]"
  by code_simp

lemma default_env_written:
  "marshal_any (AMap [(''ANTHROPIC_AUTH_TOKEN'', AString ''sk-home-0002''),
        (''ANTHROPIC_BASE_URL'', AString ''https://example.org''),
        (''API_TIMEOUT_MS'', AString ''3000000''),
        (''CLAUDE_CODE_DISABLE_NONESSENTIAL_TRAFFIC'', ANum float64_one)])
     = JObj [(''ANTHROPIC_AUTH_TOKEN'', JStr ''sk-home-0002''),
             (''ANTHROPIC_BASE_URL'', JStr ''https://example.org''),
             (''API_TIMEOUT_MS'', JStr ''3000000''),
             (''CLAUDE_CODE_DISABLE_NONESSENTIAL_TRAFFIC'', JNum float64_one)]"
  by code_simp

lemma out_of_range_number_resets:
  "member_of (JObj [(''HTTPS_PROXY'', JStr ''http://proxy:3128''),
                    (''MAX_THINKING_TOKENS'', JNum 0x7FF0000000000000)]) ''HTTPS_PROXY''
     = Some (JStr ''http://proxy:3128'')
   \<and> decode_any (JNum 0x7FF0000000000000) = None
   \<and> fst (setUnixSettingsFile out_of_range_world home_profile) = Inr ()
   \<and> files (snd (setUnixSettingsFile out_of_range_world home_profile)) SettingsPath
     = Some \<lparr>fdata = Doc (JObj [(''env'',
                 JObj [(''ANTHROPIC_AUTH_TOKEN'', JStr ''sk-home-0002''),
                       (''ANTHROPIC_BASE_URL'', JStr ''https://example.org''),
                       (''API_TIMEOUT_MS'', JStr ''3000000''),
                       (''CLAUDE_CODE_DISABLE_NONESSENTIAL_TRAFFIC'', JNum float64_one)])]),
              fmode = 384\<rparr>"
proof -
  have "fdata \<lparr>fdata = Doc out_of_range_settings, fmode = 384\<rparr> = Doc out_of_range_settings"
    by simp
  from setUnixSettingsFile_reset
         [OF out_of_range_world_flags(1,2,3,4,5) this out_of_range_settings_rejected,
          of home_profile]
  have "fst (setUnixSettingsFile out_of_range_world home_profile) = Inr ()
   \<and> files (snd (setUnixSettingsFile out_of_range_world home_profile)) SettingsPath
     = Some \<lparr>fdata = Doc (JObj [(''env'',
                 JObj [(''ANTHROPIC_AUTH_TOKEN'', JStr ''sk-home-0002''),
                       (''ANTHROPIC_BASE_URL'', JStr ''https://example.org''),
                       (''API_TIMEOUT_MS'', JStr ''3000000''),
                       (''CLAUDE_CODE_DISABLE_NONESSENTIAL_TRAFFIC'', JNum float64_one)])]),
              fmode = 384\<rparr>"
    by (simp add: default_env_updated default_env_written del: marshal_any.simps)
  moreover have "decode_any (JNum 0x7FF0000000000000) = None"
    by (simp add: finite_float64_def)
  moreover have "member_of (JObj [(''HTTPS_PROXY'', JStr ''http://proxy:3128''),
                    (''MAX_THINKING_TOKENS'', JNum 0x7FF0000000000000)]) ''HTTPS_PROXY''
     = Some (JStr ''http://proxy:3128'')"
    by simp
  ultimately show ?thesis by simp
qed

end
